theory Spec2Isabelle
  imports Main "HOL-Library.Word" "HOL-Library.AList"
begin

section \<open>Data model of \<^verbatim>\<open>apps/wallet/sign_tx/signing.py\<close>\<close>

text \<open>
  The signing controller is the class \<^verbatim>\<open>Bitcoin\<close>. Its methods are coroutines that
  mutate the fields of \<^verbatim>\<open>self\<close>, talk to the host and to the user, and raise
  \<^verbatim>\<open>SigningError\<close>. The embedding threads a record of the fields of \<^verbatim>\<open>self\<close>
  through every method; a method returns either an error or its value, together with the
  fields as they are at that moment (an exception does not undo earlier assignments).
\<close>

type_synonym byte = "8 word"
type_synonym bytes = "byte list"

text \<open>\<^verbatim>\<open>FailureType\<close> as far as this file raises it.\<close>

datatype FailureType = DataError | ProcessError | ActionCancelled | NotEnoughFunds

text \<open>
  Everything that stops a method: a \<^verbatim>\<open>SigningError\<close> with its failure type, or one
  of the interpreter's own exceptions where the source indexes, looks up or dereferences
  something that is not there.
\<close>

datatype error =
    SigningError FailureType
  | TypeError
  | IndexError
  | KeyError
  | AttributeError
  | UnboundLocalError

datatype InputScriptType =
  SPENDADDRESS | SPENDMULTISIG | EXTERNAL | SPENDWITNESS | SPENDP2SHWITNESS

datatype OutputScriptType =
  PAYTOADDRESS | PAYTOSCRIPTHASH | PAYTOMULTISIG | PAYTOOPRETURN | PAYTOWITNESS
  | PAYTOP2SHWITNESS

record MultisigRedeemScriptType =
  ms_pubkeys :: "bytes list"
  ms_signatures :: "bytes list"
  ms_m :: nat

record TxInputType =
  txi_address_n :: "nat list"
  txi_prev_hash :: bytes
  txi_prev_index :: nat
  txi_script_sig :: bytes
  txi_sequence :: nat
  txi_script_type :: InputScriptType
  txi_multisig :: "MultisigRedeemScriptType option"
  txi_amount :: "nat option"

record TxOutputType =
  txo_address :: "string option"
  txo_address_n :: "nat list"
  txo_amount :: nat
  txo_script_type :: OutputScriptType
  txo_multisig :: "MultisigRedeemScriptType option"
  txo_op_return_data :: bytes

record TxOutputBinType =
  bin_amount :: nat
  bin_script_pubkey :: bytes

text \<open>\<^verbatim>\<open>TransactionType\<close>, the metadata of a previous transaction.\<close>

record TransactionType =
  ptx_version :: nat
  ptx_lock_time :: nat
  ptx_inputs_cnt :: nat
  ptx_outputs_cnt :: nat

record SignTx =
  tx_version :: nat
  tx_lock_time :: nat
  tx_inputs_count :: nat
  tx_outputs_count :: nat

record CoinInfo =
  coin_maxfee_kb :: nat
  coin_sign_hash_double :: bool
  coin_bech32_prefix :: "string option"
  coin_address_type :: nat
  coin_address_type_p2sh :: nat

record HDNode =
  node_private_key :: bytes
  node_public_key :: bytes

record TxRequestSerializedType =
  ser_signature_index :: "nat option"
  ser_signature :: "bytes option"
  ser_serialized_tx :: "bytes option"

text \<open>
  Modelled from the spec: \<^verbatim>\<open>multisig.MultisigFingerprint\<close>, which is not part of the
  source file. The spec describes it as a commitment over the keys and threshold first
  seen on a multisig input, with an ``all match'' flag that is latched once any input
  lacks a descriptor or disagrees.
\<close>

record MultisigFingerprint =
  fp_fingerprint :: "bytes option"
  fp_mismatch :: bool

text \<open>
  Modelled from the spec: \<^verbatim>\<open>segwit_bip143.Bip143\<close>, the accumulator of the BIP-143
  midstates. It is kept as the sequences of what was added, which any implementation of
  the three streams is a function of.
\<close>

record Bip143 =
  bip_prevouts :: "TxInputType list"
  bip_sequences :: "TxInputType list"
  bip_outputs :: "TxOutputBinType list"

text \<open>The prompts put to the user, in the order of the helpers of the source.\<close>

datatype prompt =
    ConfirmForeignAddress "nat list"
  | ConfirmOutput TxOutputType
  | ConfirmFeeOverThreshold int
  | ConfirmNondefaultLocktime nat
  | ConfirmTotal int int

text \<open>
  One signature computed by \<^verbatim>\<open>ecdsa_sign\<close>: the index of the input it is for, the
  input descriptor it was computed for, the digest and the signature.
\<close>

record signing_event =
  ev_index :: nat
  ev_input :: TxInputType
  ev_digest :: bytes
  ev_signature :: bytes

text \<open>
  The fields of \<^verbatim>\<open>self\<close> set by \<^verbatim>\<open>initialize\<close>, and three fields that record what
  the run has done to the outside: the number of round trips made so far (requests to the
  host and prompts to the user), the prompts shown, and the signatures computed.
  \<^verbatim>\<open>wallet_path\<close> is \<open>Some []\<close> while unset and \<open>None\<close> for Python's \<^verbatim>\<open>None\<close>.
  \<^verbatim>\<open>segwit\<close> is the dictionary from input index to classification.
\<close>

record session =
  multisig_fp :: MultisigFingerprint
  wallet_path :: "nat list option"
  bip143_in :: int
  segwit :: "(nat \<times> bool) list"
  total_in :: int
  total_out :: int
  change_out :: int
  h_first :: bytes
  hash143 :: Bip143
  tx_req_serialized :: "TxRequestSerializedType option"
  round_trips :: nat
  prompts :: "prompt list"
  signed :: "signing_event list"

section \<open>Collaborators\<close>

text \<open>
  Modelled from the spec: the host transport and the user, which are not part of the
  source file (\<^verbatim>\<open>helpers.request_tx_input\<close>, \<^verbatim>\<open>request_tx_output\<close>,
  \<^verbatim>\<open>request_tx_meta\<close>, \<^verbatim>\<open>confirm_*\<close>). Each is a blocking round trip that returns one
  record. Nothing is cached: the answer may depend on the number of round trips made
  before, so the same index may be answered differently each time it is asked.
\<close>

record host =
  host_tx_input :: "nat \<Rightarrow> nat \<Rightarrow> TxInputType"
  host_tx_output :: "nat \<Rightarrow> nat \<Rightarrow> TxOutputType"
  host_tx_meta :: "nat \<Rightarrow> bytes \<Rightarrow> TransactionType"
  host_prev_input :: "nat \<Rightarrow> nat \<Rightarrow> bytes \<Rightarrow> TxInputType"
  host_prev_output :: "nat \<Rightarrow> nat \<Rightarrow> bytes \<Rightarrow> TxOutputBinType"
  user_confirms :: "nat \<Rightarrow> prompt \<Rightarrow> bool"

text \<open>
  The hash, the serialisers of \<^verbatim>\<open>writers\<close>, key derivation and the signature
  primitives are parameters: the source calls them and does not define them. A writer
  is the list of bytes written to it so far.
\<close>

record primitives =
  sha256 :: "bytes \<Rightarrow> bytes"
  enc_tx_input_check :: "TxInputType \<Rightarrow> bytes"
  enc_tx_input :: "TxInputType \<Rightarrow> bytes"
  enc_tx_output :: "TxOutputBinType \<Rightarrow> bytes"
  enc_varint :: "nat \<Rightarrow> bytes"
  enc_uint32 :: "nat \<Rightarrow> bytes"
  keychain_derive :: "nat list \<Rightarrow> HDNode"
  secp256k1_sign :: "bytes \<Rightarrow> bytes \<Rightarrow> bytes"
  der_encode_seq :: "bytes \<Rightarrow> bytes \<Rightarrow> bytes"
  preimage_hash :: "Bip143 \<Rightarrow> TxInputType \<Rightarrow> bytes \<Rightarrow> nat \<Rightarrow> bytes"
  fee_over_threshold :: "int \<Rightarrow> nat \<Rightarrow> TxInputType list \<Rightarrow> bytes list \<Rightarrow> bool"

text \<open>
  \<^verbatim>\<open>scripts\<close>, \<^verbatim>\<open>addresses\<close>, \<^verbatim>\<open>multisig\<close>, \<^verbatim>\<open>base58\<close>, \<^verbatim>\<open>address_type\<close> and the two
  tables of \<^verbatim>\<open>helpers\<close>. \<^verbatim>\<open>multisig_pubkey_index\<close> and \<^verbatim>\<open>decode_bech32_address\<close> may
  raise; \<^verbatim>\<open>base58.decode_check\<close> returns \<open>None\<close> for its \<^verbatim>\<open>ValueError\<close>.
\<close>

record scripting =
  output_script_multisig :: "bytes list \<Rightarrow> nat \<Rightarrow> bytes"
  output_script_p2pkh :: "bytes \<Rightarrow> bytes"
  output_script_p2sh :: "bytes \<Rightarrow> bytes"
  output_script_paytoopreturn :: "bytes \<Rightarrow> bytes"
  output_script_native_p2wpkh_or_p2wsh :: "bytes \<Rightarrow> bytes"
  input_script_p2pkh_or_p2sh :: "bytes \<Rightarrow> bytes option \<Rightarrow> nat \<Rightarrow> bytes"
  input_script_p2wsh_in_p2sh :: "bytes \<Rightarrow> bytes"
  input_script_p2wpkh_in_p2sh :: "bytes \<Rightarrow> bytes"
  input_script_native_p2wpkh_or_p2wsh :: bytes
  input_script_multisig ::
    "MultisigRedeemScriptType \<Rightarrow> bytes option \<Rightarrow> nat \<Rightarrow> nat \<Rightarrow> bytes"
  witness_p2wsh :: "MultisigRedeemScriptType \<Rightarrow> bytes \<Rightarrow> nat \<Rightarrow> nat \<Rightarrow> bytes"
  witness_p2wpkh :: "bytes \<Rightarrow> bytes \<Rightarrow> nat \<Rightarrow> bytes"
  write_output_script_multisig :: "bytes list \<Rightarrow> nat \<Rightarrow> bytes"

record addressing =
  validate_full_path :: "nat list \<Rightarrow> InputScriptType \<Rightarrow> bool"
  ecdsa_hash_pubkey :: "bytes \<Rightarrow> bytes"
  get_address :: "InputScriptType \<Rightarrow> HDNode \<Rightarrow> MultisigRedeemScriptType option \<Rightarrow> string"
  decode_bech32_address :: "string \<Rightarrow> string \<Rightarrow> error + bytes"
  base58_decode_check :: "string \<Rightarrow> bytes option"
  address_type_check :: "nat \<Rightarrow> bytes \<Rightarrow> bool"
  address_type_strip :: "nat \<Rightarrow> bytes \<Rightarrow> bytes"
  multisig_fingerprint :: "MultisigRedeemScriptType \<Rightarrow> bytes"
  multisig_get_pubkeys :: "MultisigRedeemScriptType \<Rightarrow> bytes list"
  multisig_pubkey_index :: "MultisigRedeemScriptType \<Rightarrow> bytes \<Rightarrow> error + nat"
  CHANGE_OUTPUT_SCRIPT_TYPES :: "OutputScriptType list"
  CHANGE_OUTPUT_TO_INPUT_SCRIPT_TYPES :: "(OutputScriptType \<times> InputScriptType) list"

text \<open>
  What a run is given: the sanitised \<^verbatim>\<open>SignTx\<close> message and the coin (both fixed for
  the run), the host and the collaborators.
\<close>

record env =
  tx :: SignTx
  coin :: CoinInfo
  hst :: host
  prim :: primitives
  scr :: scripting
  adr :: addressing

section \<open>Control flow\<close>

type_synonym 'a action = "session \<Rightarrow> (error + 'a) \<times> session"

definition done_with :: "'a \<Rightarrow> 'a action" where
  "done_with x = (\<lambda>s. (Inr x, s))"

definition raise :: "error \<Rightarrow> 'a action" where
  "raise e = (\<lambda>s. (Inl e, s))"

definition and_then :: "'a action \<Rightarrow> ('a \<Rightarrow> 'b action) \<Rightarrow> 'b action" where
  "and_then m f = (\<lambda>s. case m s of (Inl e, s') \<Rightarrow> (Inl e, s') | (Inr x, s') \<Rightarrow> f x s')"

definition modify :: "(session \<Rightarrow> session) \<Rightarrow> unit action" where
  "modify f = (\<lambda>s. (Inr (), f s))"

text \<open>An action chosen by what the fields of \<^verbatim>\<open>self\<close> hold at that moment.\<close>

definition reading :: "(session \<Rightarrow> 'a action) \<Rightarrow> 'a action" where
  "reading g = (\<lambda>s. g s s)"

text \<open>\<^verbatim>\<open>for i in range(n)\<close> with the local variables of the loop body in \<open>acc\<close>.\<close>

primrec for_each :: "nat list \<Rightarrow> (nat \<Rightarrow> 'a \<Rightarrow> 'a action) \<Rightarrow> 'a \<Rightarrow> 'a action" where
  "for_each [] body acc = done_with acc"
| "for_each (i # is) body acc = and_then (body i acc) (for_each is body)"

definition for_range :: "nat \<Rightarrow> (nat \<Rightarrow> 'a \<Rightarrow> 'a action) \<Rightarrow> 'a \<Rightarrow> 'a action" where
  "for_range n body acc = for_each [0..<n] body acc"

subsection \<open>Round trips\<close>

definition request_tx_input :: "env \<Rightarrow> nat \<Rightarrow> TxInputType action" where
  "request_tx_input E i =
     (\<lambda>s. (Inr (host_tx_input (hst E) (round_trips s) i),
           s\<lparr>round_trips := round_trips s + 1\<rparr>))"

definition request_tx_output :: "env \<Rightarrow> nat \<Rightarrow> TxOutputType action" where
  "request_tx_output E i =
     (\<lambda>s. (Inr (host_tx_output (hst E) (round_trips s) i),
           s\<lparr>round_trips := round_trips s + 1\<rparr>))"

definition request_tx_meta :: "env \<Rightarrow> bytes \<Rightarrow> TransactionType action" where
  "request_tx_meta E prev_hash =
     (\<lambda>s. (Inr (host_tx_meta (hst E) (round_trips s) prev_hash),
           s\<lparr>round_trips := round_trips s + 1\<rparr>))"

definition request_prev_input :: "env \<Rightarrow> nat \<Rightarrow> bytes \<Rightarrow> TxInputType action" where
  "request_prev_input E i prev_hash =
     (\<lambda>s. (Inr (host_prev_input (hst E) (round_trips s) i prev_hash),
           s\<lparr>round_trips := round_trips s + 1\<rparr>))"

definition request_prev_output :: "env \<Rightarrow> nat \<Rightarrow> bytes \<Rightarrow> TxOutputBinType action" where
  "request_prev_output E i prev_hash =
     (\<lambda>s. (Inr (host_prev_output (hst E) (round_trips s) i prev_hash),
           s\<lparr>round_trips := round_trips s + 1\<rparr>))"

definition confirm :: "env \<Rightarrow> prompt \<Rightarrow> bool action" where
  "confirm E p =
     (\<lambda>s. (Inr (user_confirms (hst E) (round_trips s) p),
           s\<lparr>round_trips := round_trips s + 1, prompts := prompts s @ [p]\<rparr>))"

subsection \<open>Constants and small helpers\<close>

definition BIP32_WALLET_DEPTH :: nat where
  "BIP32_WALLET_DEPTH = 2"

definition BIP32_CHANGE_CHAIN :: nat where
  "BIP32_CHANGE_CHAIN = 1"

definition BIP32_MAX_LAST_ELEMENT :: nat where
  "BIP32_MAX_LAST_ELEMENT = 1000000"

text \<open>\<^verbatim>\<open>address_n[:-_BIP32_WALLET_DEPTH]\<close>\<close>

definition wallet_prefix :: "nat list \<Rightarrow> nat list" where
  "wallet_prefix address_n = take (length address_n - BIP32_WALLET_DEPTH) address_n"

text \<open>\<^verbatim>\<open>xs[-k]\<close> for \<open>k > 0\<close>, which raises \<^verbatim>\<open>IndexError\<close> on a shorter list.\<close>

definition from_end :: "nat list \<Rightarrow> nat \<Rightarrow> error + nat" where
  "from_end xs k = (if length xs < k then Inl IndexError else Inr (xs ! (length xs - k)))"

definition input_is_segwit :: "TxInputType \<Rightarrow> bool" where
  "input_is_segwit i =
     (txi_script_type i = SPENDWITNESS \<or> txi_script_type i = SPENDP2SHWITNESS)"

definition get_hash_type :: nat where
  "get_hash_type = 1"

text \<open>
  Modelled from the spec: \<^verbatim>\<open>writers.get_tx_hash(w, double, reverse)\<close>, not part of the
  source file: the digest of what was written, hashed once more when \<open>double\<close>, with the
  byte order reversed when \<open>reverse\<close>.
\<close>

definition get_tx_hash :: "env \<Rightarrow> bytes \<Rightarrow> bool \<Rightarrow> bool \<Rightarrow> bytes" where
  "get_tx_hash E w double reverse =
     (let d = sha256 (prim E) w;
          d = (if double then sha256 (prim E) d else d)
      in if reverse then rev d else d)"

definition write_tx_header :: "env \<Rightarrow> bytes \<Rightarrow> nat \<Rightarrow> bool \<Rightarrow> bytes" where
  "write_tx_header E w version has_segwit =
     (let w = w @ enc_uint32 (prim E) version
      in if has_segwit then w @ enc_varint (prim E) 0 @ enc_varint (prim E) 1 else w)"

definition write_sign_tx_header :: "env \<Rightarrow> bytes \<Rightarrow> bool \<Rightarrow> bytes" where
  "write_sign_tx_header E w has_segwit =
     write_tx_header E w (tx_version (tx E)) has_segwit
       @ enc_varint (prim E) (tx_inputs_count (tx E))"

definition write_sign_tx_footer :: "env \<Rightarrow> bytes \<Rightarrow> bytes" where
  "write_sign_tx_footer E w = w @ enc_uint32 (prim E) (tx_lock_time (tx E))"

definition write_prev_tx_footer :: "env \<Rightarrow> bytes \<Rightarrow> TransactionType \<Rightarrow> bytes" where
  "write_prev_tx_footer E w ptx = w @ enc_uint32 (prim E) (ptx_lock_time ptx)"

definition ecdsa_sign :: "env \<Rightarrow> HDNode \<Rightarrow> bytes \<Rightarrow> bytes" where
  "ecdsa_sign E node digest =
     (let sig = secp256k1_sign (prim E) (node_private_key node) digest
      in der_encode_seq (prim E) (take 32 (drop 1 sig)) (take 32 (drop 33 sig)))"

subsection \<open>The multisig fingerprint\<close>

text \<open>
  Modelled from the spec: \<^verbatim>\<open>MultisigFingerprint.add\<close> and \<^verbatim>\<open>matches\<close>, not part of
  the source file. The first descriptor fixes the fingerprint, a different one latches
  the mismatch flag, and a descriptor matches when no mismatch is latched and its
  fingerprint is the fixed one.
\<close>

definition fp_add :: "env \<Rightarrow> MultisigRedeemScriptType \<Rightarrow> MultisigFingerprint \<Rightarrow> MultisigFingerprint" where
  "fp_add E ms fp =
     (case fp_fingerprint fp of
        None \<Rightarrow> fp\<lparr>fp_fingerprint := Some (multisig_fingerprint (adr E) ms)\<rparr>
      | Some f \<Rightarrow> if f \<noteq> multisig_fingerprint (adr E) ms then fp\<lparr>fp_mismatch := True\<rparr> else fp)"

definition fp_matches :: "env \<Rightarrow> MultisigFingerprint \<Rightarrow> MultisigRedeemScriptType \<Rightarrow> bool" where
  "fp_matches E fp ms =
     (\<not> fp_mismatch fp \<and> fp_fingerprint fp = Some (multisig_fingerprint (adr E) ms))"

subsection \<open>\<^verbatim>\<open>initialize\<close>\<close>

definition initialize :: session where
  "initialize =
     \<lparr> multisig_fp = \<lparr>fp_fingerprint = None, fp_mismatch = False\<rparr>,
       wallet_path = Some [],
       bip143_in = 0,
       segwit = [],
       total_in = 0,
       total_out = 0,
       change_out = 0,
       h_first = [],
       hash143 = \<lparr>bip_prevouts = [], bip_sequences = [], bip_outputs = []\<rparr>,
       tx_req_serialized = None,
       round_trips = 0,
       prompts = [],
       signed = [] \<rparr>"

subsection \<open>Wallet path\<close>

definition input_extract_wallet_path :: "TxInputType \<Rightarrow> session \<Rightarrow> session" where
  "input_extract_wallet_path txi s =
     (case wallet_path s of
        None \<Rightarrow> s
      | Some wp \<Rightarrow>
          let address_n = wallet_prefix (txi_address_n txi) in
          if address_n = [] then s\<lparr>wallet_path := None\<rparr>
          else if wp = [] then s\<lparr>wallet_path := Some address_n\<rparr>
          else if wp \<noteq> address_n then s\<lparr>wallet_path := None\<rparr>
          else s)"

definition input_check_wallet_path :: "TxInputType \<Rightarrow> unit action" where
  "input_check_wallet_path txi =
     reading (\<lambda>s. case wallet_path s of
        None \<Rightarrow> done_with ()
      | Some wp \<Rightarrow>
          if wp \<noteq> wallet_prefix (txi_address_n txi)
          then raise (SigningError ProcessError)
          else done_with ())"

definition input_check_multisig_fingerprint :: "env \<Rightarrow> TxInputType \<Rightarrow> unit action" where
  "input_check_multisig_fingerprint E txi =
     reading (\<lambda>s.
        if \<not> fp_mismatch (multisig_fp s) then
          (case txi_multisig txi of
             None \<Rightarrow> raise (SigningError ProcessError)
           | Some ms \<Rightarrow>
               if \<not> fp_matches E (multisig_fp s) ms
               then raise (SigningError ProcessError)
               else done_with ())
        else done_with ())"

subsection \<open>Output scripts\<close>

definition get_raw_address :: "env \<Rightarrow> TxOutputType \<Rightarrow> error + bytes" where
  "get_raw_address E out =
     (case txo_address out of
        None \<Rightarrow> Inl TypeError
      | Some a \<Rightarrow>
          (case base58_decode_check (adr E) a of
             None \<Rightarrow> Inl (SigningError DataError)
           | Some raw \<Rightarrow> Inr raw))"

definition get_address_for_change :: "env \<Rightarrow> TxOutputType \<Rightarrow> error + string" where
  "get_address_for_change E out =
     (case map_of (CHANGE_OUTPUT_TO_INPUT_SCRIPT_TYPES (adr E)) (txo_script_type out) of
        None \<Rightarrow> Inl (SigningError DataError)
      | Some input_script_type \<Rightarrow>
          Inr (get_address (adr E) input_script_type
                 (keychain_derive (prim E) (txo_address_n out)) (txo_multisig out)))"

text \<open>\<^verbatim>\<open>a.startswith(p)\<close>\<close>

definition startswith :: "string \<Rightarrow> string \<Rightarrow> bool" where
  "startswith a p = (take (length p) a = p)"

text \<open>
  \<^verbatim>\<open>output_derive_script\<close> assigns \<^verbatim>\<open>o.address\<close> for an output with a derivation
  path, so it returns the output as it leaves it, next to the script.
\<close>

definition output_derive_script :: "env \<Rightarrow> TxOutputType \<Rightarrow> error + (bytes \<times> TxOutputType)" where
  "output_derive_script E out =
     (if txo_script_type out = PAYTOOPRETURN
      then Inr (output_script_paytoopreturn (scr E) (txo_op_return_data out), out)
      else
        (case (if txo_address_n out \<noteq> []
               then (case get_address_for_change E out of
                       Inl e \<Rightarrow> Inl e
                     | Inr a \<Rightarrow> Inr (out\<lparr>txo_address := Some a\<rparr>))
               else Inr out) of
           Inl e \<Rightarrow> Inl e
         | Inr out \<Rightarrow>
             let base58 =
               (case get_raw_address E out of
                  Inl e \<Rightarrow> Inl e
                | Inr raw_address \<Rightarrow>
                    if address_type_check (adr E) (coin_address_type (coin E)) raw_address
                    then Inr (output_script_p2pkh (scr E)
                                (address_type_strip (adr E) (coin_address_type (coin E)) raw_address), out)
                    else if address_type_check (adr E) (coin_address_type_p2sh (coin E)) raw_address
                    then Inr (output_script_p2sh (scr E)
                                (address_type_strip (adr E) (coin_address_type_p2sh (coin E)) raw_address), out)
                    else Inl (SigningError DataError))
             in
             (case coin_bech32_prefix (coin E) of
                None \<Rightarrow> base58
              | Some p \<Rightarrow>
                  if p = [] then base58
                  else
                    (case txo_address out of
                       None \<Rightarrow> Inl AttributeError
                     | Some a \<Rightarrow>
                         if startswith a p
                         then (case decode_bech32_address (adr E) p a of
                                 Inl e \<Rightarrow> Inl e
                               | Inr witprog \<Rightarrow>
                                   Inr (output_script_native_p2wpkh_or_p2wsh (scr E) witprog, out))
                         else base58))))"

definition output_is_change :: "env \<Rightarrow> session \<Rightarrow> TxOutputType \<Rightarrow> error + bool" where
  "output_is_change E s out =
     (if txo_script_type out \<notin> set (CHANGE_OUTPUT_SCRIPT_TYPES (adr E)) then Inr False
      else if (case txo_multisig out of
                 None \<Rightarrow> False
               | Some ms \<Rightarrow> \<not> fp_matches E (multisig_fp s) ms) then Inr False
      else
        (case wallet_path s of
           None \<Rightarrow> Inr False
         | Some wp \<Rightarrow>
             if wp \<noteq> wallet_prefix (txo_address_n out) then Inr False
             else
               (case from_end (txo_address_n out) 2 of
                  Inl e \<Rightarrow> Inl e
                | Inr chain \<Rightarrow>
                    if \<not> chain \<le> BIP32_CHANGE_CHAIN then Inr False
                    else
                      (case from_end (txo_address_n out) 1 of
                         Inl e \<Rightarrow> Inl e
                       | Inr last_element \<Rightarrow> Inr (last_element \<le> BIP32_MAX_LAST_ELEMENT)))))"

subsection \<open>Input scripts\<close>

definition input_derive_script ::
  "env \<Rightarrow> TxInputType \<Rightarrow> bytes \<Rightarrow> bytes option \<Rightarrow> error + bytes" where
  "input_derive_script E i pubkey signature =
     (if txi_script_type i = SPENDADDRESS
      then Inr (input_script_p2pkh_or_p2sh (scr E) pubkey signature get_hash_type)
      else if txi_script_type i = SPENDP2SHWITNESS
      then
        (case txi_multisig i of
           Some ms \<Rightarrow>
             let pubkeys = multisig_get_pubkeys (adr E) ms;
                 witness_script_hasher = write_output_script_multisig (scr E) pubkeys (ms_m ms);
                 witness_script_hash = sha256 (prim E) witness_script_hasher
             in Inr (input_script_p2wsh_in_p2sh (scr E) witness_script_hash)
         | None \<Rightarrow>
             Inr (input_script_p2wpkh_in_p2sh (scr E) (ecdsa_hash_pubkey (adr E) pubkey)))
      else if txi_script_type i = SPENDWITNESS
      then Inr (input_script_native_p2wpkh_or_p2wsh (scr E))
      else if txi_script_type i = SPENDMULTISIG
      then
        (case txi_multisig i of
           None \<Rightarrow> Inl AttributeError
         | Some ms \<Rightarrow>
             (case multisig_pubkey_index (adr E) ms pubkey of
                Inl e \<Rightarrow> Inl e
              | Inr signature_index \<Rightarrow>
                  Inr (input_script_multisig (scr E) ms signature signature_index get_hash_type)))
      else Inl (SigningError ProcessError))"

subsection \<open>The previous-transaction verifier\<close>

definition prevtx_input_step :: "env \<Rightarrow> bytes \<Rightarrow> nat \<Rightarrow> bytes \<Rightarrow> bytes action" where
  "prevtx_input_step E prev_hash i txh =
     and_then (request_prev_input E i prev_hash)
       (\<lambda>txi. done_with (txh @ enc_tx_input (prim E) txi))"

definition prevtx_output_step ::
  "env \<Rightarrow> bytes \<Rightarrow> nat \<Rightarrow> nat \<Rightarrow> bytes \<times> nat \<Rightarrow> (bytes \<times> nat) action" where
  "prevtx_output_step E prev_hash prev_index out acc =
     and_then (request_prev_output E out prev_hash)
       (\<lambda>txo_bin.
          done_with (fst acc @ enc_tx_output (prim E) txo_bin,
                     if out = prev_index then bin_amount txo_bin else snd acc))"

definition get_prevtx_output_value :: "env \<Rightarrow> bytes \<Rightarrow> nat \<Rightarrow> nat action" where
  "get_prevtx_output_value E prev_hash prev_index =
     and_then (request_tx_meta E prev_hash)
       (\<lambda>ptx.
          if ptx_outputs_cnt ptx \<le> prev_index then raise (SigningError ProcessError)
          else
            and_then
              (for_range (ptx_inputs_cnt ptx) (prevtx_input_step E prev_hash)
                 (write_tx_header E [] (ptx_version ptx) False
                    @ enc_varint (prim E) (ptx_inputs_cnt ptx)))
              (\<lambda>txh.
                 and_then
                   (for_range (ptx_outputs_cnt ptx) (prevtx_output_step E prev_hash prev_index)
                      (txh @ enc_varint (prim E) (ptx_outputs_cnt ptx), 0))
                   (\<lambda>(txh, amount_out).
                      if get_tx_hash E (write_prev_tx_footer E txh ptx)
                           (coin_sign_hash_double (coin E)) True \<noteq> prev_hash
                      then raise (SigningError ProcessError)
                      else done_with amount_out)))"

subsection \<open>Phase 1\<close>

definition phase1_process_segwit_input :: "nat \<Rightarrow> TxInputType \<Rightarrow> unit action" where
  "phase1_process_segwit_input i txi =
     (case txi_amount txi of
        None \<Rightarrow> raise (SigningError DataError)
      | Some a \<Rightarrow>
          if a = 0 then raise (SigningError DataError)
          else modify (\<lambda>s. s\<lparr>segwit := AList.update i True (segwit s),
                              bip143_in := bip143_in s + int a,
                              total_in := total_in s + int a\<rparr>))"

definition phase1_process_nonsegwit_input :: "env \<Rightarrow> nat \<Rightarrow> TxInputType \<Rightarrow> unit action" where
  "phase1_process_nonsegwit_input E i txi =
     and_then (modify (\<lambda>s. s\<lparr>segwit := AList.update i False (segwit s)\<rparr>))
       (\<lambda>_. and_then (get_prevtx_output_value E (txi_prev_hash txi) (txi_prev_index txi))
          (\<lambda>v. modify (\<lambda>s. s\<lparr>total_in := total_in s + int v\<rparr>)))"

definition phase1_process_input :: "env \<Rightarrow> nat \<Rightarrow> TxInputType \<Rightarrow> unit action" where
  "phase1_process_input E i txi =
     and_then (modify (input_extract_wallet_path txi))
       (\<lambda>_. and_then
          (modify (\<lambda>s. s\<lparr>h_first := h_first s @ enc_tx_input_check (prim E) txi,
                          hash143 := (hash143 s)\<lparr>bip_prevouts := bip_prevouts (hash143 s) @ [txi],
                                                 bip_sequences := bip_sequences (hash143 s) @ [txi]\<rparr>\<rparr>))
          (\<lambda>_. and_then
             (if \<not> validate_full_path (adr E) (txi_address_n txi) (txi_script_type txi)
              then and_then (confirm E (ConfirmForeignAddress (txi_address_n txi)))
                     (\<lambda>_. done_with ())
              else done_with ())
             (\<lambda>_. and_then
                (modify (\<lambda>s. case txi_multisig txi of
                                Some ms \<Rightarrow> s\<lparr>multisig_fp := fp_add E ms (multisig_fp s)\<rparr>
                              | None \<Rightarrow> s\<lparr>multisig_fp := (multisig_fp s)\<lparr>fp_mismatch := True\<rparr>\<rparr>))
                (\<lambda>_. if txi_script_type txi \<in> {SPENDWITNESS, SPENDP2SHWITNESS}
                      then phase1_process_segwit_input i txi
                      else if txi_script_type txi \<in> {SPENDADDRESS, SPENDMULTISIG}
                      then phase1_process_nonsegwit_input E i txi
                      else raise (SigningError DataError)))))"

definition phase1_confirm_output ::
  "env \<Rightarrow> nat \<Rightarrow> TxOutputType \<Rightarrow> TxOutputBinType \<Rightarrow> unit action" where
  "phase1_confirm_output E i txo txo_bin =
     and_then
       (reading (\<lambda>s.
          if change_out s = 0
          then (case output_is_change E s txo of
                  Inl e \<Rightarrow> raise e
                | Inr True \<Rightarrow> modify (\<lambda>s. s\<lparr>change_out := int (txo_amount txo)\<rparr>)
                | Inr False \<Rightarrow>
                    and_then (confirm E (ConfirmOutput txo))
                      (\<lambda>ok. if \<not> ok then raise (SigningError ActionCancelled)
                             else done_with ()))
          else and_then (confirm E (ConfirmOutput txo))
                 (\<lambda>ok. if \<not> ok then raise (SigningError ActionCancelled)
                        else done_with ())))
       (\<lambda>_. modify (\<lambda>s. s\<lparr>h_first := h_first s @ enc_tx_output (prim E) txo_bin,
                           hash143 := (hash143 s)\<lparr>bip_outputs := bip_outputs (hash143 s) @ [txo_bin]\<rparr>,
                           total_out := total_out s + int (bin_amount txo_bin)\<rparr>))"

definition on_negative_fee :: "unit action" where
  "on_negative_fee = raise (SigningError NotEnoughFunds)"

text \<open>
  The two loops of \<^verbatim>\<open>phase1\<close>. Their local state is the weight calculator, kept as the
  inputs and the output scripts added to it.
\<close>

definition phase1_input_step ::
  "env \<Rightarrow> nat \<Rightarrow> TxInputType list \<Rightarrow> (TxInputType list) action" where
  "phase1_input_step E i weight_in =
     and_then (request_tx_input E i)
       (\<lambda>txi. and_then (phase1_process_input E i txi)
          (\<lambda>_. done_with (weight_in @ [txi])))"

definition phase1_output_step ::
  "env \<Rightarrow> nat \<Rightarrow> bytes list \<Rightarrow> (bytes list) action" where
  "phase1_output_step E i weight_out =
     and_then (request_tx_output E i)
       (\<lambda>txo. case output_derive_script E txo of
          Inl e \<Rightarrow> raise e
        | Inr (script_pubkey, txo) \<Rightarrow>
            and_then
              (phase1_confirm_output E i txo
                 \<lparr>bin_amount = txo_amount txo, bin_script_pubkey = script_pubkey\<rparr>)
              (\<lambda>_. done_with (weight_out @ [script_pubkey])))"

definition phase1_loops :: "env \<Rightarrow> (TxInputType list \<times> bytes list) action" where
  "phase1_loops E =
     and_then (for_range (tx_inputs_count (tx E)) (phase1_input_step E) [])
       (\<lambda>weight_in.
          and_then (for_range (tx_outputs_count (tx E)) (phase1_output_step E) [])
            (\<lambda>weight_out. done_with (weight_in, weight_out)))"

definition phase1_checks :: "env \<Rightarrow> TxInputType list \<times> bytes list \<Rightarrow> unit action" where
  "phase1_checks E weight =
     reading (\<lambda>s.
        let fee = total_in s - total_out s in
        and_then (if fee < 0 then on_negative_fee else done_with ())
          (\<lambda>_. and_then
             (if fee_over_threshold (prim E) fee (coin_maxfee_kb (coin E)) (fst weight) (snd weight)
              then and_then (confirm E (ConfirmFeeOverThreshold fee))
                     (\<lambda>ok. if \<not> ok then raise (SigningError ActionCancelled)
                            else done_with ())
              else done_with ())
             (\<lambda>_. and_then
                (if tx_lock_time (tx E) > 0
                 then and_then (confirm E (ConfirmNondefaultLocktime (tx_lock_time (tx E))))
                        (\<lambda>ok. if \<not> ok then raise (SigningError ActionCancelled)
                               else done_with ())
                 else done_with ())
                (\<lambda>_. and_then (confirm E (ConfirmTotal (total_in s - change_out s) fee))
                   (\<lambda>ok. if \<not> ok then raise (SigningError ActionCancelled)
                          else done_with ())))))"

definition phase1 :: "env \<Rightarrow> unit action" where
  "phase1 E = and_then (phase1_loops E) (phase1_checks E)"

subsection \<open>Phase 2\<close>

text \<open>\<^verbatim>\<open>self.segwit[i]\<close>, a \<^verbatim>\<open>KeyError\<close> for an index never classified.\<close>

definition segwit_at :: "nat \<Rightarrow> bool action" where
  "segwit_at i =
     reading (\<lambda>s. case map_of (segwit s) i of
        None \<Rightarrow> raise KeyError
      | Some b \<Rightarrow> done_with b)"

text \<open>\<^verbatim>\<open>True in self.segwit.values()\<close>\<close>

definition any_segwit :: "session \<Rightarrow> bool" where
  "any_segwit s = (True \<in> set (map snd (segwit s)))"

text \<open>
  Every call of \<^verbatim>\<open>ecdsa_sign\<close> is recorded in \<open>signed\<close>, with the input it signs for.
\<close>

definition sign_digest :: "env \<Rightarrow> nat \<Rightarrow> TxInputType \<Rightarrow> HDNode \<Rightarrow> bytes \<Rightarrow> bytes action" where
  "sign_digest E i txi key_sign digest =
     (let signature = ecdsa_sign E key_sign digest in
      and_then
        (modify (\<lambda>s. s\<lparr>signed := signed s @
                   [\<lparr>ev_index = i, ev_input = txi, ev_digest = digest,
                     ev_signature = signature\<rparr>]\<rparr>))
        (\<lambda>_. done_with signature))"

definition phase2_serialize_segwit_input :: "env \<Rightarrow> nat \<Rightarrow> unit action" where
  "phase2_serialize_segwit_input E i_sign =
     and_then (request_tx_input E i_sign)
       (\<lambda>txi_sign.
          if \<not> input_is_segwit txi_sign then raise (SigningError ProcessError)
          else
            and_then (input_check_wallet_path txi_sign)
              (\<lambda>_. let key_sign = keychain_derive (prim E) (txi_address_n txi_sign);
                        key_sign_pub = node_public_key key_sign
                    in case input_derive_script E txi_sign key_sign_pub None of
                         Inl e \<Rightarrow> raise e
                       | Inr script_sig \<Rightarrow>
                           let txi_sign = txi_sign\<lparr>txi_script_sig := script_sig\<rparr>;
                               w_txi = (if i_sign = 0 then write_sign_tx_header E [] True else [])
                                         @ enc_tx_input (prim E) txi_sign
                           in modify (\<lambda>s. s\<lparr>tx_req_serialized :=
                                Some \<lparr>ser_signature_index = None, ser_signature = None,
                                      ser_serialized_tx = Some w_txi\<rparr>\<rparr>)))"

definition phase2_sign_segwit_input :: "env \<Rightarrow> nat \<Rightarrow> (bytes \<times> bytes) action" where
  "phase2_sign_segwit_input E i =
     and_then (request_tx_input E i)
       (\<lambda>txi.
          and_then (input_check_wallet_path txi)
            (\<lambda>_. and_then (input_check_multisig_fingerprint E txi)
               (\<lambda>_. and_then
                  (reading (\<lambda>s.
                     if \<not> input_is_segwit txi then raise (SigningError ProcessError)
                     else (case txi_amount txi of
                             None \<Rightarrow> raise TypeError
                           | Some a \<Rightarrow>
                               if int a > bip143_in s
                               then raise (SigningError ProcessError)
                               else modify (\<lambda>s. s\<lparr>bip143_in := bip143_in s - int a\<rparr>))))
                  (\<lambda>_. reading (\<lambda>s.
                     let key_sign = keychain_derive (prim E) (txi_address_n txi);
                         key_sign_pub = node_public_key key_sign;
                         hash143_hash = preimage_hash (prim E) (hash143 s) txi
                                          (ecdsa_hash_pubkey (adr E) key_sign_pub) get_hash_type
                     in and_then (sign_digest E i txi key_sign hash143_hash)
                          (\<lambda>signature.
                             case txi_multisig txi of
                               Some ms \<Rightarrow>
                                 (case multisig_pubkey_index (adr E) ms key_sign_pub of
                                    Inl e \<Rightarrow> raise e
                                  | Inr signature_index \<Rightarrow>
                                      done_with (witness_p2wsh (scr E) ms signature signature_index
                                                   get_hash_type, signature))
                             | None \<Rightarrow>
                                 done_with (witness_p2wpkh (scr E) signature key_sign_pub
                                              get_hash_type, signature)))))))"

text \<open>
  The local variables of \<^verbatim>\<open>phase2_sign_nonsegwit_input\<close>: the two writers, and
  \<^verbatim>\<open>txi_sign\<close> and \<^verbatim>\<open>key_sign\<close>, which are bound only once the loop has met the
  signed index.
\<close>

record legacy_locals =
  l_h_sign :: bytes
  l_h_second :: bytes
  l_txi_sign :: "TxInputType option"
  l_key_sign :: "HDNode option"

definition legacy_input_step :: "env \<Rightarrow> nat \<Rightarrow> nat \<Rightarrow> legacy_locals \<Rightarrow> legacy_locals action" where
  "legacy_input_step E i_sign i L =
     and_then (request_tx_input E i)
       (\<lambda>txi.
          and_then (input_check_wallet_path txi)
            (\<lambda>_. let L = L\<lparr>l_h_second := l_h_second L @ enc_tx_input_check (prim E) txi\<rparr> in
               if i = i_sign then
                 and_then (input_check_multisig_fingerprint E txi)
                   (\<lambda>_. let key_sign = keychain_derive (prim E) (txi_address_n txi);
                             key_sign_pub = node_public_key key_sign
                         in
                         if txi_script_type txi = SPENDMULTISIG then
                           (case txi_multisig txi of
                              None \<Rightarrow> raise AttributeError
                            | Some ms \<Rightarrow>
                                let txi = txi\<lparr>txi_script_sig :=
                                      output_script_multisig (scr E)
                                        (multisig_get_pubkeys (adr E) ms) (ms_m ms)\<rparr>
                                in done_with
                                     (L\<lparr>l_txi_sign := Some txi, l_key_sign := Some key_sign,
                                        l_h_sign := l_h_sign L @ enc_tx_input (prim E) txi\<rparr>))
                         else if txi_script_type txi = SPENDADDRESS then
                           (let txi = txi\<lparr>txi_script_sig :=
                                  output_script_p2pkh (scr E)
                                    (ecdsa_hash_pubkey (adr E) key_sign_pub)\<rparr>
                            in done_with
                                 (L\<lparr>l_txi_sign := Some txi, l_key_sign := Some key_sign,
                                    l_h_sign := l_h_sign L @ enc_tx_input (prim E) txi\<rparr>))
                         else raise (SigningError ProcessError))
               else
                 (let txi = txi\<lparr>txi_script_sig := []\<rparr>
                  in done_with (L\<lparr>l_h_sign := l_h_sign L @ enc_tx_input (prim E) txi\<rparr>))))"

definition legacy_output_step :: "env \<Rightarrow> nat \<Rightarrow> legacy_locals \<Rightarrow> legacy_locals action" where
  "legacy_output_step E i L =
     and_then (request_tx_output E i)
       (\<lambda>txo. case output_derive_script E txo of
          Inl e \<Rightarrow> raise e
        | Inr (script_pubkey, txo) \<Rightarrow>
            let txo_bin = \<lparr>bin_amount = txo_amount txo, bin_script_pubkey = script_pubkey\<rparr>
            in done_with
                 (L\<lparr>l_h_second := l_h_second L @ enc_tx_output (prim E) txo_bin,
                    l_h_sign := l_h_sign L @ enc_tx_output (prim E) txo_bin\<rparr>))"

text \<open>
  The two loops of \<^verbatim>\<open>phase2_sign_nonsegwit_input\<close>, up to the two trailing writes to
  \<^verbatim>\<open>h_sign\<close>.
\<close>

definition legacy_restream :: "env \<Rightarrow> nat \<Rightarrow> legacy_locals action" where
  "legacy_restream E i_sign =
     and_then
       (for_range (tx_inputs_count (tx E)) (legacy_input_step E i_sign)
          \<lparr>l_h_sign = write_sign_tx_header E [] False, l_h_second = [],
            l_txi_sign = None, l_key_sign = None\<rparr>)
       (\<lambda>L. and_then
          (for_range (tx_outputs_count (tx E)) (legacy_output_step E)
             (L\<lparr>l_h_sign := l_h_sign L @ enc_varint (prim E) (tx_outputs_count (tx E))\<rparr>))
          (\<lambda>L. done_with
             (L\<lparr>l_h_sign := l_h_sign L @ enc_uint32 (prim E) (tx_lock_time (tx E))
                                @ enc_uint32 (prim E) get_hash_type\<rparr>)))"

definition legacy_sign :: "env \<Rightarrow> nat \<Rightarrow> legacy_locals \<Rightarrow> unit action" where
  "legacy_sign E i_sign L =
     reading (\<lambda>s.
        if get_tx_hash E (h_first s) False False \<noteq> get_tx_hash E (l_h_second L) False False
        then raise (SigningError ProcessError)
        else
          (case (l_txi_sign L, l_key_sign L) of
             (Some txi_sign, Some key_sign) \<Rightarrow>
               let key_sign_pub = node_public_key key_sign in
               and_then
                 (case txi_multisig txi_sign of
                    None \<Rightarrow> done_with ()
                  | Some ms \<Rightarrow>
                      (case multisig_pubkey_index (adr E) ms key_sign_pub of
                         Inl e \<Rightarrow> raise e
                       | Inr _ \<Rightarrow> done_with ()))
                 (\<lambda>_. and_then
                    (sign_digest E i_sign txi_sign key_sign
                       (get_tx_hash E (l_h_sign L) (coin_sign_hash_double (coin E)) False))
                    (\<lambda>signature.
                       case input_derive_script E txi_sign key_sign_pub (Some signature) of
                         Inl e \<Rightarrow> raise e
                       | Inr script_sig \<Rightarrow>
                           modify
                             (\<lambda>s. let txi_sign = txi_sign\<lparr>txi_script_sig := script_sig\<rparr>;
                                      w_txi_sign =
                                        (if i_sign = 0
                                         then write_sign_tx_header E [] (any_segwit s) else [])
                                          @ enc_tx_input (prim E) txi_sign
                                  in s\<lparr>tx_req_serialized :=
                                         Some \<lparr>ser_signature_index = Some i_sign,
                                               ser_signature = Some signature,
                                               ser_serialized_tx = Some w_txi_sign\<rparr>\<rparr>)))
           | _ \<Rightarrow> raise UnboundLocalError))"

definition phase2_sign_nonsegwit_input :: "env \<Rightarrow> nat \<Rightarrow> unit action" where
  "phase2_sign_nonsegwit_input E i_sign =
     and_then (legacy_restream E i_sign) (legacy_sign E i_sign)"

definition phase2_serialize_output :: "env \<Rightarrow> nat \<Rightarrow> bytes action" where
  "phase2_serialize_output E i =
     and_then (request_tx_output E i)
       (\<lambda>txo. case output_derive_script E txo of
          Inl e \<Rightarrow> raise e
        | Inr (script_pubkey, txo) \<Rightarrow>
            done_with
              ((if i = 0 then enc_varint (prim E) (tx_outputs_count (tx E)) else [])
                 @ enc_tx_output (prim E)
                     \<lparr>bin_amount = txo_amount txo, bin_script_pubkey = script_pubkey\<rparr>))"

text \<open>The bodies of the three loops of \<^verbatim>\<open>phase2\<close>.\<close>

definition phase2_input_step :: "env \<Rightarrow> nat \<Rightarrow> unit \<Rightarrow> unit action" where
  "phase2_input_step E i u =
     and_then (segwit_at i)
       (\<lambda>is_segwit. if is_segwit then phase2_serialize_segwit_input E i
                     else phase2_sign_nonsegwit_input E i)"

definition phase2_output_step ::
  "env \<Rightarrow> nat \<Rightarrow> TxRequestSerializedType \<Rightarrow> TxRequestSerializedType action" where
  "phase2_output_step E i tx_ser =
     and_then (phase2_serialize_output E i)
       (\<lambda>w. let tx_ser = tx_ser\<lparr>ser_serialized_tx := Some w\<rparr>
             in and_then (modify (\<lambda>s. s\<lparr>tx_req_serialized := Some tx_ser\<rparr>))
                  (\<lambda>_. done_with tx_ser))"

definition phase2_witness_step ::
  "env \<Rightarrow> bool \<Rightarrow> nat \<Rightarrow> TxRequestSerializedType \<Rightarrow> TxRequestSerializedType action" where
  "phase2_witness_step E any_sw i tx_ser =
     and_then (segwit_at i)
       (\<lambda>is_segwit.
          and_then
            (if is_segwit then
               and_then (phase2_sign_segwit_input E i)
                 (\<lambda>(witness, signature).
                    done_with (tx_ser\<lparr>ser_serialized_tx := Some witness,
                                      ser_signature_index := Some i,
                                      ser_signature := Some signature\<rparr>))
             else if any_sw then
               (case ser_serialized_tx tx_ser of
                  None \<Rightarrow> raise TypeError
                | Some b \<Rightarrow>
                    done_with (tx_ser\<lparr>ser_serialized_tx := Some (b @ [0]),
                                      ser_signature_index := None,
                                      ser_signature := None\<rparr>))
             else done_with tx_ser)
            (\<lambda>tx_ser. and_then (modify (\<lambda>s. s\<lparr>tx_req_serialized := Some tx_ser\<rparr>))
                         (\<lambda>_. done_with tx_ser)))"

definition request_tx_finish :: "unit action" where
  "request_tx_finish = modify (\<lambda>s. s\<lparr>round_trips := round_trips s + 1\<rparr>)"

text \<open>
  The witness pass of \<^verbatim>\<open>phase2\<close>: \<^verbatim>\<open>any_segwit\<close> is computed once, before the loop.
\<close>

definition phase2_witness_pass ::
  "env \<Rightarrow> TxRequestSerializedType \<Rightarrow> TxRequestSerializedType action" where
  "phase2_witness_pass E tx_ser =
     reading (\<lambda>s.
        for_range (tx_inputs_count (tx E)) (phase2_witness_step E (any_segwit s)) tx_ser)"

definition phase2 :: "env \<Rightarrow> unit action" where
  "phase2 E =
     and_then (modify (\<lambda>s. s\<lparr>tx_req_serialized := None\<rparr>))
       (\<lambda>_. and_then (for_range (tx_inputs_count (tx E)) (phase2_input_step E) ())
          (\<lambda>_. and_then
             (for_range (tx_outputs_count (tx E)) (phase2_output_step E)
                \<lparr>ser_signature_index = None, ser_signature = None, ser_serialized_tx = None\<rparr>)
             (\<lambda>tx_ser. and_then (phase2_witness_pass E tx_ser)
                (\<lambda>tx_ser.
                   case ser_serialized_tx tx_ser of
                     None \<Rightarrow> raise AttributeError
                   | Some w \<Rightarrow>
                       and_then
                         (modify (\<lambda>s. s\<lparr>tx_req_serialized :=
                            Some (tx_ser\<lparr>ser_serialized_tx :=
                                    Some (write_sign_tx_footer E w)\<rparr>)\<rparr>))
                         (\<lambda>_. request_tx_finish)))))"

subsection \<open>\<^verbatim>\<open>signer\<close>\<close>

definition signer :: "env \<Rightarrow> (error + unit) \<times> session" where
  "signer E = and_then (phase1 E) (\<lambda>_. phase2 E) initialize"

section \<open>Reference streams\<close>

text \<open>
  What the previous-transaction verifier hashes, written as one expression over the
  host's answers: the metadata is the answer to round trip \<open>r\<close>, input \<open>i\<close> the answer to
  round trip \<open>r + 1 + i\<close>, output \<open>j\<close> the answer to the round trip after the last input.
\<close>

definition prev_tx_stream :: "env \<Rightarrow> bytes \<Rightarrow> nat \<Rightarrow> bytes" where
  "prev_tx_stream E prev_hash r =
     (let ptx = host_tx_meta (hst E) r prev_hash in
      enc_uint32 (prim E) (ptx_version ptx)
        @ enc_varint (prim E) (ptx_inputs_cnt ptx)
        @ concat (map (\<lambda>i. enc_tx_input (prim E) (host_prev_input (hst E) (r + 1 + i) i prev_hash))
                    [0..<ptx_inputs_cnt ptx])
        @ enc_varint (prim E) (ptx_outputs_cnt ptx)
        @ concat (map (\<lambda>j. enc_tx_output (prim E)
                         (host_prev_output (hst E) (r + 1 + ptx_inputs_cnt ptx + j) j prev_hash))
                    [0..<ptx_outputs_cnt ptx])
        @ enc_uint32 (prim E) (ptx_lock_time ptx))"

text \<open>
  What a re-stream of the transaction that starts at round trip \<open>r\<close> folds into
  \<^verbatim>\<open>h_second\<close>: the check encoding of every input as the host sends it again, then
  every output with the script derived for it.
\<close>

definition derived_output_bin :: "env \<Rightarrow> TxOutputType \<Rightarrow> TxOutputBinType" where
  "derived_output_bin E txo =
     \<lparr> bin_amount = txo_amount txo,
       bin_script_pubkey =
         (case output_derive_script E txo of Inr (script_pubkey, _) \<Rightarrow> script_pubkey
          | Inl _ \<Rightarrow> []) \<rparr>"

definition restreamed_copies :: "env \<Rightarrow> nat \<Rightarrow> bytes" where
  "restreamed_copies E r =
     concat (map (\<lambda>i. enc_tx_input_check (prim E) (host_tx_input (hst E) (r + i) i))
               [0..<tx_inputs_count (tx E)])
       @ concat (map (\<lambda>j. enc_tx_output (prim E)
                          (derived_output_bin E
                             (host_tx_output (hst E) (r + tx_inputs_count (tx E) + j) j)))
                   [0..<tx_outputs_count (tx E)])"

text \<open>The sum of the amounts of the segwit inputs of a list of input descriptors.\<close>

definition segwit_amounts :: "TxInputType list \<Rightarrow> int" where
  "segwit_amounts txis =
     sum_list (map (\<lambda>t. case txi_amount t of None \<Rightarrow> 0 | Some a \<Rightarrow> int a)
                 (filter input_is_segwit txis))"

text \<open>
  The sum of the amounts of the segwit inputs among the signatures computed so far.
\<close>

definition signed_segwit_amount :: "signing_event list \<Rightarrow> int" where
  "signed_segwit_amount evs =
     sum_list (map (\<lambda>e. case txi_amount (ev_input e) of None \<Rightarrow> 0 | Some a \<Rightarrow> int a)
                 (filter (\<lambda>e. input_is_segwit (ev_input e)) evs))"

section \<open>A concrete run\<close>

text \<open>
  A small instance on which the definitions can be evaluated: a toy hash (the identity),
  one-byte encoders, a legacy input that spends output 0 of a previous transaction worth
  100, and a payment of 90.
\<close>

definition demo_prim :: primitives where
  "demo_prim =
     \<lparr> sha256 = (\<lambda>b. b),
       enc_tx_input_check = (\<lambda>t. of_nat (txi_prev_index t) # map of_nat (txi_address_n t)),
       enc_tx_input = (\<lambda>t. of_nat (txi_prev_index t) # txi_script_sig t),
       enc_tx_output = (\<lambda>b. of_nat (bin_amount b) # bin_script_pubkey b),
       enc_varint = (\<lambda>n. [of_nat n]),
       enc_uint32 = (\<lambda>n. [of_nat n]),
       keychain_derive = (\<lambda>p. \<lparr>node_private_key = map of_nat p, node_public_key = map of_nat p\<rparr>),
       secp256k1_sign = (\<lambda>k d. k @ d),
       der_encode_seq = (\<lambda>r s. r @ s),
       preimage_hash = (\<lambda>h t k n. [of_nat (txi_prev_index t)]),
       fee_over_threshold = (\<lambda>fee maxfee ins outs. fee > int maxfee) \<rparr>"

definition demo_scr :: scripting where
  "demo_scr =
     \<lparr> output_script_multisig = (\<lambda>ks m. concat ks),
       output_script_p2pkh = (\<lambda>h. h),
       output_script_p2sh = (\<lambda>h. h),
       output_script_paytoopreturn = (\<lambda>d. d),
       output_script_native_p2wpkh_or_p2wsh = (\<lambda>w. w),
       input_script_p2pkh_or_p2sh = (\<lambda>k sg n. (case sg of None \<Rightarrow> [] | Some x \<Rightarrow> x) @ k),
       input_script_p2wsh_in_p2sh = (\<lambda>h. h),
       input_script_p2wpkh_in_p2sh = (\<lambda>h. h),
       input_script_native_p2wpkh_or_p2wsh = [],
       input_script_multisig = (\<lambda>ms sg i n. (case sg of None \<Rightarrow> [] | Some x \<Rightarrow> x)),
       witness_p2wsh = (\<lambda>ms sg i n. sg),
       witness_p2wpkh = (\<lambda>sg k n. sg @ k),
       write_output_script_multisig = (\<lambda>ks m. concat ks) \<rparr>"

definition demo_adr :: addressing where
  "demo_adr =
     \<lparr> validate_full_path = (\<lambda>p t. True),
       ecdsa_hash_pubkey = (\<lambda>k. k),
       get_address = (\<lambda>t n ms. ''1change''),
       decode_bech32_address = (\<lambda>p a. Inr []),
       base58_decode_check = (\<lambda>a. if a = [] then None else Some [0, 9]),
       address_type_check = (\<lambda>t raw. take 1 raw = [of_nat t]),
       address_type_strip = (\<lambda>t raw. drop 1 raw),
       multisig_fingerprint = (\<lambda>ms. concat (ms_pubkeys ms)),
       multisig_get_pubkeys = ms_pubkeys,
       multisig_pubkey_index = (\<lambda>ms k. if k \<in> set (ms_pubkeys ms) then Inr 0
                                       else Inl (SigningError DataError)),
       CHANGE_OUTPUT_SCRIPT_TYPES = [PAYTOADDRESS, PAYTOMULTISIG, PAYTOWITNESS, PAYTOP2SHWITNESS],
       CHANGE_OUTPUT_TO_INPUT_SCRIPT_TYPES =
         [(PAYTOADDRESS, SPENDADDRESS), (PAYTOMULTISIG, SPENDMULTISIG),
          (PAYTOWITNESS, SPENDWITNESS), (PAYTOP2SHWITNESS, SPENDP2SHWITNESS)] \<rparr>"

definition demo_coin :: CoinInfo where
  "demo_coin =
     \<lparr> coin_maxfee_kb = 1000, coin_sign_hash_double = True, coin_bech32_prefix = Some ''bc'',
       coin_address_type = 0, coin_address_type_p2sh = 5 \<rparr>"

definition legacy_input :: TxInputType where
  "legacy_input =
     \<lparr> txi_address_n = [44, 0, 0, 0, 3], txi_prev_hash = [0, 100, 1, 0, 1], txi_prev_index = 0,
       txi_script_sig = [], txi_sequence = 0, txi_script_type = SPENDADDRESS,
       txi_multisig = None, txi_amount = None \<rparr>"

definition segwit_input :: TxInputType where
  "segwit_input =
     \<lparr> txi_address_n = [44, 0, 0, 0, 4], txi_prev_hash = [7], txi_prev_index = 1,
       txi_script_sig = [], txi_sequence = 0, txi_script_type = SPENDWITNESS,
       txi_multisig = None, txi_amount = Some 50 \<rparr>"

definition payment_output :: TxOutputType where
  "payment_output =
     \<lparr> txo_address = Some ''1abc'', txo_address_n = [], txo_amount = 90,
       txo_script_type = PAYTOADDRESS, txo_multisig = None, txo_op_return_data = [] \<rparr>"

definition change_output :: "nat \<Rightarrow> TxOutputType" where
  "change_output v =
     \<lparr> txo_address = None, txo_address_n = [44, 0, 0, 1, 0], txo_amount = v,
       txo_script_type = PAYTOADDRESS, txo_multisig = None, txo_op_return_data = [] \<rparr>"

definition demo_multisig :: MultisigRedeemScriptType where
  "demo_multisig = \<lparr> ms_pubkeys = [[1]], ms_signatures = [], ms_m = 1 \<rparr>"

definition multisig_input :: TxInputType where
  "multisig_input =
     \<lparr> txi_address_n = [44, 0, 0, 0, 5], txi_prev_hash = [0, 100, 1, 0, 1], txi_prev_index = 0,
       txi_script_sig = [], txi_sequence = 0, txi_script_type = SPENDMULTISIG,
       txi_multisig = Some demo_multisig, txi_amount = None \<rparr>"

definition demo_host :: host where
  "demo_host =
     \<lparr> host_tx_input = (\<lambda>r i. legacy_input),
       host_tx_output = (\<lambda>r i. payment_output),
       host_tx_meta = (\<lambda>r h. \<lparr>ptx_version = 1, ptx_lock_time = 0, ptx_inputs_cnt = 0,
                                ptx_outputs_cnt = 1\<rparr>),
       host_prev_input = (\<lambda>r i h. legacy_input),
       host_prev_output = (\<lambda>r i h. \<lparr>bin_amount = 100, bin_script_pubkey = []\<rparr>),
       user_confirms = (\<lambda>r p. True) \<rparr>"

definition demo_env :: env where
  "demo_env =
     \<lparr> tx = \<lparr>tx_version = 1, tx_lock_time = 0, tx_inputs_count = 1, tx_outputs_count = 1\<rparr>,
       coin = demo_coin, hst = demo_host, prim = demo_prim, scr = demo_scr, adr = demo_adr \<rparr>"

text \<open>The same run with a single native segwit input worth 50, which cannot pay 90.\<close>

definition underfunded_env :: env where
  "underfunded_env = demo_env\<lparr>hst := demo_host\<lparr>host_tx_input := (\<lambda>r i. segwit_input)\<rparr>\<rparr>"

text \<open>
  A run with two outputs to the wallet's own change chain, the first of amount 0, and a
  user who declines every prompt.
\<close>

definition two_change_env :: env where
  "two_change_env =
     demo_env\<lparr>tx := (tx demo_env)\<lparr>tx_outputs_count := 2\<rparr>,
              hst := demo_host\<lparr>host_tx_output :=
                                  (\<lambda>r i. if i = 0 then change_output 0 else change_output 5),
                                user_confirms := (\<lambda>r p. False)\<rparr>\<rparr>"

text \<open>
  The session of the concrete run when phase 2 begins, and a host that raises the amount of
  the output to 91 from round trip 6 on, after the user has confirmed 90.
\<close>

definition after_phase1 :: session where
  "after_phase1 =
     initialize\<lparr> multisig_fp := \<lparr>fp_fingerprint = None, fp_mismatch = True\<rparr>,
                 wallet_path := Some [44, 0, 0], segwit := [(0, False)],
                 total_in := 100, total_out := 90, h_first := [0, 44, 0, 0, 0, 3, 90, 9],
                 hash143 := \<lparr>bip_prevouts = [legacy_input], bip_sequences = [legacy_input],
                              bip_outputs = [\<lparr>bin_amount = 90, bin_script_pubkey = [9]\<rparr>]\<rparr>,
                 round_trips := 6,
                 prompts := [ConfirmOutput payment_output, ConfirmTotal 100 10] \<rparr>"

definition tampering_env :: env where
  "tampering_env =
     demo_env\<lparr>hst := demo_host\<lparr>host_tx_output :=
        (\<lambda>r i. if r < 6 then payment_output else payment_output\<lparr>txo_amount := 91\<rparr>)\<rparr>\<rparr>"

text \<open>
  A host that sends input 0 as a legacy input in phase 1 and as a native segwit input from
  round trip 6 on, and one that does the opposite.
\<close>

definition segwit_flip_env :: env where
  "segwit_flip_env =
     demo_env\<lparr>hst := demo_host\<lparr>host_tx_input :=
        (\<lambda>r i. if r < 6 then legacy_input else segwit_input)\<rparr>\<rparr>"

definition legacy_flip_env :: env where
  "legacy_flip_env =
     demo_env\<lparr>hst := demo_host\<lparr>host_tx_input :=
        (\<lambda>r i. if r < 3 then segwit_input else legacy_input)\<rparr>\<rparr>"

text \<open>
  A transaction without outputs whose first input is legacy and whose second is native
  segwit.
\<close>

definition no_output_env :: env where
  "no_output_env =
     demo_env\<lparr>tx := (tx demo_env)\<lparr>tx_inputs_count := 2, tx_outputs_count := 0\<rparr>,
              hst := demo_host\<lparr>host_tx_input :=
                                  (\<lambda>r i. if i = 0 then legacy_input else segwit_input)\<rparr>\<rparr>"

text \<open>
  A run that spends two native segwit inputs, worth 50 and 30, on a payment of 70, the
  session of that run when phase 2 begins, and a host that declares 31 for the second input
  from round trip 5 on, after phase 1 has put 50 and 30 into the pool.
\<close>

definition second_segwit_input :: TxInputType where
  "second_segwit_input =
     segwit_input\<lparr>txi_address_n := [44, 0, 0, 0, 5], txi_prev_index := 2, txi_amount := Some 30\<rparr>"

definition segwit_env :: env where
  "segwit_env =
     demo_env\<lparr>tx := (tx demo_env)\<lparr>tx_inputs_count := 2\<rparr>,
              hst := demo_host\<lparr>host_tx_input :=
                                  (\<lambda>r i. if i = 0 then segwit_input else second_segwit_input),
                                host_tx_output := (\<lambda>r i. payment_output\<lparr>txo_amount := 70\<rparr>)\<rparr>\<rparr>"

definition segwit_after_phase1 :: session where
  "segwit_after_phase1 =
     initialize\<lparr> multisig_fp := \<lparr>fp_fingerprint = None, fp_mismatch = True\<rparr>,
                 wallet_path := Some [44, 0, 0], bip143_in := 80,
                 segwit := [(0, True), (1, True)], total_in := 80, total_out := 70,
                 h_first := [1, 44, 0, 0, 0, 4, 2, 44, 0, 0, 0, 5, 70, 9],
                 hash143 := \<lparr>bip_prevouts = [segwit_input, second_segwit_input],
                              bip_sequences = [segwit_input, second_segwit_input],
                              bip_outputs = [\<lparr>bin_amount = 70, bin_script_pubkey = [9]\<rparr>]\<rparr>,
                 round_trips := 5,
                 prompts := [ConfirmOutput (payment_output\<lparr>txo_amount := 70\<rparr>),
                             ConfirmTotal 80 10] \<rparr>"

definition greedy_env :: env where
  "greedy_env =
     segwit_env\<lparr>hst := (hst segwit_env)\<lparr>host_tx_input :=
        (\<lambda>r i. if i = 0 then segwit_input
               else if r < 5 then second_segwit_input
               else second_segwit_input\<lparr>txi_amount := Some 31\<rparr>)\<rparr>\<rparr>"

section \<open>Frames\<close>

text \<open>
  An action keeps a relation when the session it ends in, with or without an error, is
  related to the one it started from.
\<close>

definition keeps :: "(session \<Rightarrow> session \<Rightarrow> bool) \<Rightarrow> 'a action \<Rightarrow> bool" where
  "keeps R m = (\<forall>s r s'. m s = (r, s') \<longrightarrow> R s s')"

definition preorder_on_sessions :: "(session \<Rightarrow> session \<Rightarrow> bool) \<Rightarrow> bool" where
  "preorder_on_sessions R = ((\<forall>s. R s s) \<and> (\<forall>a b c. R a b \<longrightarrow> R b c \<longrightarrow> R a c))"

text \<open>Phase 1 computes no signature, and its two latches only close.\<close>

definition phase1_frame :: "session \<Rightarrow> session \<Rightarrow> bool" where
  "phase1_frame s s' =
     (signed s' = signed s \<and> tx_req_serialized s' = tx_req_serialized s
      \<and> (wallet_path s = None \<longrightarrow> wallet_path s' = None)
      \<and> (fp_mismatch (multisig_fp s) \<longrightarrow> fp_mismatch (multisig_fp s'))
      \<and> bip143_in s \<le> bip143_in s')"

text \<open>The outputs of phase 1 leave everything about the inputs alone.\<close>

definition outputs_frame :: "session \<Rightarrow> session \<Rightarrow> bool" where
  "outputs_frame s s' =
     (signed s' = signed s \<and> wallet_path s' = wallet_path s \<and> multisig_fp s' = multisig_fp s
      \<and> total_in s' = total_in s \<and> bip143_in s' = bip143_in s \<and> segwit s' = segwit s
      \<and> (change_out s \<noteq> 0 \<longrightarrow> change_out s' = change_out s))"

text \<open>Phase 2 leaves alone what phase 1 has collected, but for the segwit pool.\<close>

definition phase2_frame :: "session \<Rightarrow> session \<Rightarrow> bool" where
  "phase2_frame s s' =
     (wallet_path s' = wallet_path s \<and> multisig_fp s' = multisig_fp s \<and> segwit s' = segwit s
      \<and> h_first s' = h_first s \<and> hash143 s' = hash143 s \<and> total_in s' = total_in s
      \<and> total_out s' = total_out s \<and> change_out s' = change_out s \<and> prompts s' = prompts s)"

text \<open>A re-stream only makes round trips.\<close>

definition only_round_trips :: "session \<Rightarrow> session \<Rightarrow> bool" where
  "only_round_trips s s' = (\<exists>n. s' = s\<lparr>round_trips := n\<rparr>)"

text \<open>
  The segwit pool and the segwit amounts signed so far add up to the same total, and the
  pool does not become negative.
\<close>

definition pool_frame :: "session \<Rightarrow> session \<Rightarrow> bool" where
  "pool_frame s s' =
     ((0 \<le> bip143_in s \<longrightarrow> 0 \<le> bip143_in s')
      \<and> bip143_in s' + signed_segwit_amount (signed s')
          = bip143_in s + signed_segwit_amount (signed s))"

text \<open>
  What leaves alone the pool, the inputs collected for the BIP-143 digest and the
  signatures.
\<close>

definition inputs_frame :: "session \<Rightarrow> session \<Rightarrow> bool" where
  "inputs_frame s s' =
     (bip143_in s' = bip143_in s \<and> bip_prevouts (hash143 s') = bip_prevouts (hash143 s)
      \<and> signed s' = signed s)"

text \<open>
  The inputs that phase 1 has processed are the ones collected for the BIP-143 digest: each
  is an answer of the host for its index, the pool is the sum of the amounts of the segwit
  ones among them, and nothing is signed yet.
\<close>

definition collected :: "env \<Rightarrow> TxInputType list \<Rightarrow> session \<Rightarrow> bool" where
  "collected E w s =
     (bip_prevouts (hash143 s) = w \<and> bip143_in s = segwit_amounts w \<and> signed s = []
      \<and> (\<forall>k < length w. \<exists>rt. w ! k = host_tx_input (hst E) rt k))"

section \<open>Verification\<close>

subsection \<open>Sequencing and loops\<close>

lemmas monad_defs = done_with_def raise_def and_then_def modify_def reading_def
lemmas io_defs = request_tx_input_def request_tx_output_def request_tx_meta_def
  request_prev_input_def request_prev_output_def confirm_def

lemma and_then_cases:
  assumes "and_then m f s = (r, s')"
  obtains (stop) e where "m s = (Inl e, s')" "r = Inl e"
        | (go) x s1 where "m s = (Inr x, s1)" "f x s1 = (r, s')"
  using assms by (auto simp: and_then_def split: prod.splits sum.splits)

lemma and_then_Inr: "m s = (Inr x, s1) \<Longrightarrow> and_then m f s = f x s1"
  by (simp add: and_then_def)

lemma and_then_Inl: "m s = (Inl e, s1) \<Longrightarrow> and_then m f s = (Inl e, s1)"
  by (simp add: and_then_def)

lemma for_each_preserves:
  assumes step: "\<And>i acc s r s'. P s \<Longrightarrow> body i acc s = (r, s') \<Longrightarrow> P s'"
  shows "P s \<Longrightarrow> for_each js body acc s = (r, s') \<Longrightarrow> P s'"
proof (induction js arbitrary: acc s)
  case Nil
  then show ?case by (simp add: monad_defs)
next
  case (Cons j js)
  from Cons.prems(2) have "and_then (body j acc) (for_each js body) s = (r, s')" by simp
  then show ?case
  proof (cases rule: and_then_cases)
    case (stop e)
    then show ?thesis using step[OF Cons.prems(1)] by simp
  next
    case (go x s1)
    then show ?thesis using step[OF Cons.prems(1)] Cons.IH by blast
  qed
qed

lemma for_range_preserves:
  assumes "\<And>i acc s r s'. P s \<Longrightarrow> body i acc s = (r, s') \<Longrightarrow> P s'"
  shows "P s \<Longrightarrow> for_range n body acc s = (r, s') \<Longrightarrow> P s'"
  unfolding for_range_def using for_each_preserves[of P body] assms by blast

lemma for_each_append:
  "for_each (xs @ ys) body acc = and_then (for_each xs body acc) (for_each ys body)"
  by (induction xs arbitrary: acc) (auto simp: monad_defs fun_eq_iff split: prod.splits sum.splits)

lemma prevtx_input_step_eff:
  "prevtx_input_step E ph i txh s =
     (Inr (txh @ enc_tx_input (prim E) (host_prev_input (hst E) (round_trips s) i ph)),
      s\<lparr>round_trips := round_trips s + 1\<rparr>)"
  by (simp add: prevtx_input_step_def monad_defs io_defs)

lemma prevtx_output_step_eff:
  "prevtx_output_step E ph pi j acc s =
     (Inr (fst acc @ enc_tx_output (prim E) (host_prev_output (hst E) (round_trips s) j ph),
           if j = pi then bin_amount (host_prev_output (hst E) (round_trips s) j ph) else snd acc),
      s\<lparr>round_trips := round_trips s + 1\<rparr>)"
  by (simp add: prevtx_output_step_def monad_defs io_defs)

lemma for_each_snoc:
  "for_each [0..<Suc n] body acc = and_then (for_each [0..<n] body acc) (body n)"
proof -
  have "for_each [n] body = body n"
    by (auto simp: monad_defs fun_eq_iff split: prod.splits sum.splits)
  then show ?thesis by (simp add: for_each_append)
qed

lemma for_each_snoc_Inr:
  "for_each [0..<n] body acc s = (Inr x, s1) \<Longrightarrow> for_each [0..<Suc n] body acc s = body n x s1"
  by (simp add: for_each_snoc and_then_def del: upt_Suc)

lemma for_each_snoc_Inl:
  "for_each [0..<n] body acc s = (Inl e, s1) \<Longrightarrow> for_each [0..<Suc n] body acc s = (Inl e, s1)"
  by (simp add: for_each_snoc and_then_def del: upt_Suc)

lemma prevtx_inputs_loop:
  "for_each [0..<n] (prevtx_input_step E ph) txh s =
     (Inr (txh @ concat (map (\<lambda>i. enc_tx_input (prim E)
                (host_prev_input (hst E) (round_trips s + i) i ph)) [0..<n])),
      s\<lparr>round_trips := round_trips s + n\<rparr>)"
proof (induction n)
  case 0
  then show ?case by (simp add: monad_defs)
next
  case (Suc n)
  show ?case
    by (subst for_each_snoc_Inr[OF Suc.IH]) (simp add: prevtx_input_step_eff)
qed

lemma for_range_induct:
  assumes step: "\<And>i acc s acc' s'. i < n \<Longrightarrow> R i acc s \<Longrightarrow> body i acc s = (Inr acc', s') \<Longrightarrow> R (Suc i) acc' s'"
    and fail: "\<And>i acc s e s'. i < n \<Longrightarrow> R i acc s \<Longrightarrow> body i acc s = (Inl e, s') \<Longrightarrow> Q e s'"
    and init: "R 0 acc s"
    and run: "for_range n body acc s = (r, s')"
  shows "case r of Inr acc' \<Rightarrow> R n acc' s' | Inl e \<Rightarrow> Q e s'"
  using step fail run
proof (induction n arbitrary: r s')
  case 0
  then show ?case using init by (auto simp add: for_range_def monad_defs)
next
  case (Suc n)
  obtain r1 s1 where r1: "for_range n body acc s = (r1, s1)"
    by (cases "for_range n body acc s")
  have st: "\<And>i acc s acc' s'. i < n \<Longrightarrow> R i acc s \<Longrightarrow> body i acc s = (Inr acc', s') \<Longrightarrow> R (Suc i) acc' s'"
    using Suc.prems(1) less_Suc_eq by blast
  have fl: "\<And>i acc s e s'. i < n \<Longrightarrow> R i acc s \<Longrightarrow> body i acc s = (Inl e, s') \<Longrightarrow> Q e s'"
    using Suc.prems(2) less_Suc_eq by blast
  have IH: "case r1 of Inr acc' \<Rightarrow> R n acc' s1 | Inl e \<Rightarrow> Q e s1"
    by (rule Suc.IH[OF st fl r1])
  show ?case
  proof (cases r1)
    case (Inl e)
    then have "for_range (Suc n) body acc s = (Inl e, s1)"
      using r1 for_each_snoc_Inl[of n body acc s e s1] by (simp add: for_range_def)
    with Suc.prems(3) Inl IH show ?thesis by auto
  next
    case (Inr x)
    then have eq: "body n x s1 = (r, s')"
      using r1 for_each_snoc_Inr[of n body acc s x s1] Suc.prems(3) by (simp add: for_range_def)
    from IH Inr have Rn: "R n x s1" by simp
    show ?thesis
    proof (cases r)
      case (Inl e)
      then show ?thesis using Suc.prems(2)[of n x s1 e s'] Rn eq by simp
    next
      case (Inr y)
      then show ?thesis using Suc.prems(1)[of n x s1 y s'] Rn eq by simp
    qed
  qed
qed

lemma prevtx_outputs_loop:
  "for_each [0..<n] (prevtx_output_step E ph pi) (txh, a0) s =
     (Inr (txh @ concat (map (\<lambda>j. enc_tx_output (prim E)
                (host_prev_output (hst E) (round_trips s + j) j ph)) [0..<n]),
           if pi < n then bin_amount (host_prev_output (hst E) (round_trips s + pi) pi ph) else a0),
      s\<lparr>round_trips := round_trips s + n\<rparr>)"
proof (induction n)
  case 0
  then show ?case by (simp add: monad_defs)
next
  case (Suc n)
  show ?case
    by (subst for_each_snoc_Inr[OF Suc.IH]) (auto simp add: prevtx_output_step_eff)
qed

lemma get_prevtx_output_value_eq:
  "get_prevtx_output_value E prev_hash prev_index s =
     (let ptx = host_tx_meta (hst E) (round_trips s) prev_hash in
      if ptx_outputs_cnt ptx \<le> prev_index
      then (Inl (SigningError ProcessError), s\<lparr>round_trips := round_trips s + 1\<rparr>)
      else if get_tx_hash E (prev_tx_stream E prev_hash (round_trips s))
                (coin_sign_hash_double (coin E)) True \<noteq> prev_hash
      then (Inl (SigningError ProcessError),
            s\<lparr>round_trips := round_trips s + 1 + ptx_inputs_cnt ptx + ptx_outputs_cnt ptx\<rparr>)
      else (Inr (bin_amount (host_prev_output (hst E)
                   (round_trips s + 1 + ptx_inputs_cnt ptx + prev_index) prev_index prev_hash)),
            s\<lparr>round_trips := round_trips s + 1 + ptx_inputs_cnt ptx + ptx_outputs_cnt ptx\<rparr>))"
  unfolding get_prevtx_output_value_def
  apply (subst and_then_Inr[where m = "request_tx_meta E prev_hash", OF request_tx_meta_def[THEN fun_cong]])
  apply (simp add: Let_def raise_def for_range_def)
  apply (intro impI conjI)
   apply (simp_all add: and_then_def prevtx_inputs_loop prevtx_outputs_loop done_with_def
       raise_def prev_tx_stream_def write_tx_header_def write_prev_tx_footer_def Let_def add.assoc)
  done

lemmas demo_defs = demo_env_def demo_host_def demo_prim_def demo_scr_def demo_adr_def
  demo_coin_def legacy_input_def segwit_input_def payment_output_def change_output_def
  demo_multisig_def multisig_input_def underfunded_env_def two_change_env_def
  after_phase1_def tampering_env_def segwit_flip_env_def legacy_flip_env_def no_output_env_def
  second_segwit_input_def segwit_env_def segwit_after_phase1_def greedy_env_def

subsection \<open>The concrete run\<close>

lemma phase1_process_nonsegwit_input_eq:
  "phase1_process_nonsegwit_input E i txi s =
     (case get_prevtx_output_value E (txi_prev_hash txi) (txi_prev_index txi)
             (s\<lparr>segwit := AList.update i False (segwit s)\<rparr>) of
        (Inl e, s1) \<Rightarrow> (Inl e, s1)
      | (Inr v, s1) \<Rightarrow> (Inr (), s1\<lparr>total_in := total_in s1 + int v\<rparr>))"
  by (simp add: phase1_process_nonsegwit_input_def monad_defs split: prod.splits sum.splits)

subsection \<open>Too few outputs in a referenced transaction\<close>

text \<open>
  C5, as stated: when the referenced output index is not below the declared output count of
  the previous transaction, the run aborts with a \<^verbatim>\<open>DataError\<close>. The source raises a
  \<^verbatim>\<open>ProcessError\<close> there: the previous transaction of the concrete run declares one
  output, and asking for output 1 stops with \<^verbatim>\<open>ProcessError\<close>.
\<close>

theorem too_few_outputs_not_data_error:
  "ptx_outputs_cnt (host_tx_meta (hst demo_env) (round_trips initialize) [0, 100, 1, 0, 1]) \<le> 1
   \<and> fst (get_prevtx_output_value demo_env [0, 100, 1, 0, 1] 1 initialize)
       = Inl (SigningError ProcessError)
   \<and> fst (get_prevtx_output_value demo_env [0, 100, 1, 0, 1] 1 initialize)
       \<noteq> Inl (SigningError DataError)"
  by (simp add: get_prevtx_output_value_eq demo_defs initialize_def)

text \<open>
  C5, amended: when the referenced output index is not below the declared output count,
  the verifier stops right after the metadata round trip, with a \<^verbatim>\<open>ProcessError\<close>.
\<close>

theorem too_few_outputs_is_process_error:
  assumes "ptx_outputs_cnt (host_tx_meta (hst E) (round_trips s) prev_hash) \<le> prev_index"
  shows "get_prevtx_output_value E prev_hash prev_index s =
           (Inl (SigningError ProcessError), s\<lparr>round_trips := round_trips s + 1\<rparr>)"
  using assms by (simp add: get_prevtx_output_value_eq)

theorem too_few_outputs_is_process_error_witness:
  "ptx_outputs_cnt (host_tx_meta (hst demo_env) (round_trips initialize) [0, 100, 1, 0, 1]) \<le> 1
   \<and> get_prevtx_output_value demo_env [0, 100, 1, 0, 1] 1 initialize =
       (Inl (SigningError ProcessError), initialize\<lparr>round_trips := round_trips initialize + 1\<rparr>)"
proof -
  have h: "ptx_outputs_cnt (host_tx_meta (hst demo_env) (round_trips initialize) [0, 100, 1, 0, 1]) \<le> 1"
    by (simp add: demo_defs)
  show ?thesis using h too_few_outputs_is_process_error[OF h] by simp
qed

subsection \<open>The previous-transaction verifier attests the amount\<close>

text \<open>
  C4: the verifier returns an amount only when the hash of the streamed previous
  transaction (double-hashed as the coin says, reversed) equals the referenced id, and the
  amount is then that of the streamed output at the referenced index; on a mismatch it
  stops with a \<^verbatim>\<open>ProcessError\<close>. It never touches the running input total, and
  \<^verbatim>\<open>phase1_process_nonsegwit_input\<close> adds the amount only when the verifier returned.
\<close>

theorem prevtx_value_only_after_hash_check:
  "(get_prevtx_output_value E prev_hash prev_index s = (r, s') \<longrightarrow>
      (\<forall>amount. r = Inr amount \<longrightarrow>
         get_tx_hash E (prev_tx_stream E prev_hash (round_trips s))
           (coin_sign_hash_double (coin E)) True = prev_hash
         \<and> prev_index < ptx_outputs_cnt (host_tx_meta (hst E) (round_trips s) prev_hash)
         \<and> amount = bin_amount (host_prev_output (hst E)
              (round_trips s + 1 + ptx_inputs_cnt (host_tx_meta (hst E) (round_trips s) prev_hash)
                 + prev_index) prev_index prev_hash))
      \<and> (get_tx_hash E (prev_tx_stream E prev_hash (round_trips s))
            (coin_sign_hash_double (coin E)) True \<noteq> prev_hash
          \<longrightarrow> r = Inl (SigningError ProcessError))
      \<and> total_in s' = total_in s)
   \<and> (phase1_process_nonsegwit_input E i txi s = (r2, s2) \<longrightarrow>
        (get_tx_hash E (prev_tx_stream E (txi_prev_hash txi) (round_trips s))
            (coin_sign_hash_double (coin E)) True \<noteq> txi_prev_hash txi
          \<longrightarrow> r2 = Inl (SigningError ProcessError) \<and> total_in s2 = total_in s)
        \<and> (r2 = Inr () \<longrightarrow>
              get_tx_hash E (prev_tx_stream E (txi_prev_hash txi) (round_trips s))
                (coin_sign_hash_double (coin E)) True = txi_prev_hash txi
              \<and> total_in s2 = total_in s + int (bin_amount (host_prev_output (hst E)
                   (round_trips s + 1
                      + ptx_inputs_cnt (host_tx_meta (hst E) (round_trips s) (txi_prev_hash txi))
                      + txi_prev_index txi) (txi_prev_index txi) (txi_prev_hash txi))))
        \<and> (r2 \<noteq> Inr () \<longrightarrow> total_in s2 = total_in s))"
proof (intro conjI impI)
  assume "phase1_process_nonsegwit_input E i txi s = (r2, s2)"
    and "get_tx_hash E (prev_tx_stream E (txi_prev_hash txi) (round_trips s))
            (coin_sign_hash_double (coin E)) True \<noteq> txi_prev_hash txi"
  then show "r2 = Inl (SigningError ProcessError)" "total_in s2 = total_in s"
    by (auto simp: phase1_process_nonsegwit_input_eq get_prevtx_output_value_eq Let_def
        split: if_splits)
next
  assume "phase1_process_nonsegwit_input E i txi s = (r2, s2)" and "r2 = Inr ()"
  then show "get_tx_hash E (prev_tx_stream E (txi_prev_hash txi) (round_trips s))
                (coin_sign_hash_double (coin E)) True = txi_prev_hash txi"
    "total_in s2 = total_in s + int (bin_amount (host_prev_output (hst E)
                   (round_trips s + 1
                      + ptx_inputs_cnt (host_tx_meta (hst E) (round_trips s) (txi_prev_hash txi))
                      + txi_prev_index txi) (txi_prev_index txi) (txi_prev_hash txi)))"
    by (auto simp: phase1_process_nonsegwit_input_eq get_prevtx_output_value_eq Let_def
        split: if_splits)
next
  assume "phase1_process_nonsegwit_input E i txi s = (r2, s2)" and "r2 \<noteq> Inr ()"
  then show "total_in s2 = total_in s"
    by (auto simp: phase1_process_nonsegwit_input_eq get_prevtx_output_value_eq Let_def
        split: if_splits)
qed (auto simp: get_prevtx_output_value_eq Let_def split: if_splits)

theorem prevtx_value_only_after_hash_check_witness:
  "get_prevtx_output_value demo_env [0, 100, 1, 0, 1] 0 initialize
     = (Inr 100, initialize\<lparr>round_trips := 2\<rparr>)
   \<and> get_tx_hash demo_env (prev_tx_stream demo_env [0, 100, 1, 0, 1] 0) True True
       = [0, 100, 1, 0, 1]
   \<and> get_prevtx_output_value demo_env [9] 0 initialize
       = (Inl (SigningError ProcessError), initialize\<lparr>round_trips := 2\<rparr>)
   \<and> get_tx_hash demo_env (prev_tx_stream demo_env [9] 0) True True \<noteq> [9]
   \<and> phase1_process_nonsegwit_input demo_env 0 legacy_input initialize
       = (Inr (), initialize\<lparr>segwit := [(0, False)], round_trips := 2, total_in := 100\<rparr>)
   \<and> fst (phase1_process_nonsegwit_input demo_env 0 (legacy_input\<lparr>txi_prev_hash := [9]\<rparr>) initialize)
       = Inl (SigningError ProcessError)
   \<and> total_in (snd (phase1_process_nonsegwit_input demo_env 0
         (legacy_input\<lparr>txi_prev_hash := [9]\<rparr>) initialize)) = 0"
proof -
  have run1: "get_prevtx_output_value demo_env [0, 100, 1, 0, 1] 0 initialize
     = (Inr 100, initialize\<lparr>round_trips := 2\<rparr>)"
    by (simp add: get_prevtx_output_value_eq demo_defs initialize_def prev_tx_stream_def
        get_tx_hash_def)
  have run2: "get_prevtx_output_value demo_env [9] 0 initialize
       = (Inl (SigningError ProcessError), initialize\<lparr>round_trips := 2\<rparr>)"
    by (simp add: get_prevtx_output_value_eq demo_defs initialize_def prev_tx_stream_def
        get_tx_hash_def)
  have run3: "phase1_process_nonsegwit_input demo_env 0 legacy_input initialize
       = (Inr (), initialize\<lparr>segwit := [(0, False)], round_trips := 2, total_in := 100\<rparr>)"
    by (simp add: phase1_process_nonsegwit_input_eq get_prevtx_output_value_eq demo_defs
        initialize_def prev_tx_stream_def get_tx_hash_def)
  obtain r4 s4 where run4: "phase1_process_nonsegwit_input demo_env 0
      (legacy_input\<lparr>txi_prev_hash := [9]\<rparr>) initialize = (r4, s4)"
    by (cases "phase1_process_nonsegwit_input demo_env 0
      (legacy_input\<lparr>txi_prev_hash := [9]\<rparr>) initialize")
  have bad: "get_tx_hash demo_env (prev_tx_stream demo_env [9] 0) True True \<noteq> [9]"
    by (simp add: demo_defs prev_tx_stream_def get_tx_hash_def)
  have t1: "get_tx_hash demo_env (prev_tx_stream demo_env [0, 100, 1, 0, 1] 0) True True
       = [0, 100, 1, 0, 1]"
    using prevtx_value_only_after_hash_check[where E = demo_env
        and prev_hash = "[0, 100, 1, 0, 1]" and prev_index = 0 and s = initialize
        and r = "Inr 100" and s' = "initialize\<lparr>round_trips := 2\<rparr>"] run1
    by (simp add: demo_defs initialize_def)
  have t4: "r4 = Inl (SigningError ProcessError) \<and> total_in s4 = 0"
    using prevtx_value_only_after_hash_check[where E = demo_env and i = 0
        and txi = "legacy_input\<lparr>txi_prev_hash := [9]\<rparr>" and s = initialize
        and ?r2.0 = r4 and ?s2.0 = s4] run4 bad
    by (simp add: demo_defs initialize_def)
  show ?thesis using run1 run2 run3 run4 bad t1 t4 by simp
qed

subsection \<open>What each method leaves alone\<close>

lemma keepsD: "keeps R m \<Longrightarrow> m s = (r, s') \<Longrightarrow> R s s'"
  by (auto simp: keeps_def)

lemma keeps_done_with: "preorder_on_sessions R \<Longrightarrow> keeps R (done_with x)"
  by (auto simp: keeps_def preorder_on_sessions_def done_with_def)

lemma keeps_raise: "preorder_on_sessions R \<Longrightarrow> keeps R (raise e)"
  by (auto simp: keeps_def preorder_on_sessions_def raise_def)

lemma keeps_modify: "(\<And>s. R s (f s)) \<Longrightarrow> keeps R (modify f)"
  by (auto simp: keeps_def modify_def)

lemma keeps_and_then:
  assumes "preorder_on_sessions R" "keeps R m" "\<And>x. keeps R (f x)"
  shows "keeps R (and_then m f)"
  unfolding keeps_def
proof (intro allI impI)
  fix s r s'
  assume "and_then m f s = (r, s')"
  then show "R s s'"
  proof (cases rule: and_then_cases)
    case (stop e)
    then show ?thesis using assms(2) by (auto simp: keeps_def)
  next
    case (go x s1)
    then have "R s s1" "R s1 s'" using assms(2,3) by (auto simp: keeps_def)
    then show ?thesis using assms(1) unfolding preorder_on_sessions_def by blast
  qed
qed

lemma keeps_for_each:
  assumes "preorder_on_sessions R" "\<And>i acc. keeps R (body i acc)"
  shows "keeps R (for_each js body acc)"
proof (induction js arbitrary: acc)
  case Nil
  show ?case by (simp add: keeps_done_with assms(1))
next
  case (Cons j js)
  show ?case by (simp add: keeps_and_then[OF assms(1) assms(2)] Cons)
qed

lemma keeps_for_range:
  assumes "preorder_on_sessions R" "\<And>i acc. keeps R (body i acc)"
  shows "keeps R (for_range n body acc)"
  unfolding for_range_def by (rule keeps_for_each[OF assms])

lemma keeps_reading: "(\<And>s. keeps R (g s)) \<Longrightarrow> keeps R (reading g)"
  by (auto simp: keeps_def reading_def)

lemma keeps_round_trip:
  assumes "\<And>s n. R s (s\<lparr>round_trips := n\<rparr>)"
  shows "keeps R (request_tx_input E i)" "keeps R (request_tx_output E i)"
    "keeps R (request_tx_meta E h)" "keeps R (request_prev_input E i h)"
    "keeps R (request_prev_output E i h)" "keeps R request_tx_finish"
  using assms by (auto simp: keeps_def io_defs request_tx_finish_def modify_def)

lemma keeps_confirm:
  assumes "\<And>s n p. R s (s\<lparr>round_trips := n, prompts := p\<rparr>)"
  shows "keeps R (confirm E p)"
  using assms by (auto simp: keeps_def io_defs)

lemma keeps_get_prevtx_output_value:
  assumes "\<And>s n. R s (s\<lparr>round_trips := n\<rparr>)"
  shows "keeps R (get_prevtx_output_value E ph pi)"
  using assms by (auto simp: keeps_def get_prevtx_output_value_eq Let_def split: if_splits)

lemma keeps_checks:
  assumes "preorder_on_sessions R"
  shows "keeps R (input_check_wallet_path txi)"
    "keeps R (input_check_multisig_fingerprint E txi)"
    "keeps R (segwit_at i)"
  using assms
  by (auto simp: keeps_def preorder_on_sessions_def input_check_wallet_path_def
      input_check_multisig_fingerprint_def segwit_at_def monad_defs
      split: option.splits if_splits)

lemma keeps_if:
  "(c \<Longrightarrow> keeps R a) \<Longrightarrow> (\<not> c \<Longrightarrow> keeps R b) \<Longrightarrow> keeps R (if c then a else b)"
  by simp

lemma keeps_case_option:
  "(x = None \<Longrightarrow> keeps R a) \<Longrightarrow> (\<And>y. x = Some y \<Longrightarrow> keeps R (b y))
   \<Longrightarrow> keeps R (case x of None \<Rightarrow> a | Some y \<Rightarrow> b y)"
  by (cases x) simp_all

lemma keeps_case_sum:
  "(\<And>e. x = Inl e \<Longrightarrow> keeps R (a e)) \<Longrightarrow> (\<And>y. x = Inr y \<Longrightarrow> keeps R (b y))
   \<Longrightarrow> keeps R (case x of Inl e \<Rightarrow> a e | Inr y \<Rightarrow> b y)"
  by (cases x) simp_all

lemma keeps_case_prod:
  "(\<And>a b. x = (a, b) \<Longrightarrow> keeps R (f a b)) \<Longrightarrow> keeps R (case x of (a, b) \<Rightarrow> f a b)"
  by (cases x) simp_all

lemma keeps_case_bool:
  "(x \<Longrightarrow> keeps R a) \<Longrightarrow> (\<not> x \<Longrightarrow> keeps R b)
   \<Longrightarrow> keeps R (case x of True \<Rightarrow> a | False \<Rightarrow> b)"
  by (cases x) simp_all

lemma keeps_let: "keeps R (f x) \<Longrightarrow> keeps R (let y = x in f y)"
  by simp

lemmas keeps_flow = keeps_and_then keeps_done_with keeps_raise keeps_if keeps_case_option
  keeps_case_sum keeps_case_prod keeps_case_bool keeps_let keeps_for_range keeps_checks
  keeps_reading

lemma phase1_frame_preorder: "preorder_on_sessions phase1_frame"
  by (auto simp: preorder_on_sessions_def phase1_frame_def)

lemma outputs_frame_preorder: "preorder_on_sessions outputs_frame"
  by (auto simp: preorder_on_sessions_def outputs_frame_def)


lemma only_round_trips_preorder: "preorder_on_sessions only_round_trips"
  unfolding preorder_on_sessions_def only_round_trips_def
proof (intro conjI allI impI)
  fix s :: session
  have "s = s\<lparr>round_trips := round_trips s\<rparr>" by simp
  then show "\<exists>n. s = s\<lparr>round_trips := n\<rparr>" ..
qed auto

lemma only_round_trips_step: "only_round_trips s (s\<lparr>round_trips := n\<rparr>)"
  by (auto simp: only_round_trips_def)

lemmas frame_defs = phase1_frame_def outputs_frame_def phase2_frame_def only_round_trips_def

lemma phase1_process_input_frame: "keeps phase1_frame (phase1_process_input E i txi)"
  unfolding phase1_process_input_def phase1_process_segwit_input_def
    phase1_process_nonsegwit_input_def
  by (rule keeps_flow keeps_modify keeps_confirm keeps_get_prevtx_output_value
        phase1_frame_preorder
      | simp add: phase1_frame_def input_extract_wallet_path_def fp_add_def Let_def
          split: option.splits)+

lemma phase1_input_step_frame: "keeps phase1_frame (phase1_input_step E i w)"
  unfolding phase1_input_step_def
  by (rule keeps_flow keeps_round_trip phase1_process_input_frame phase1_frame_preorder
      | simp add: phase1_frame_def)+

lemma confirm_output_or_cancel_frame:
  "keeps outputs_frame
     (and_then (confirm E (ConfirmOutput txo))
        (\<lambda>ok. if \<not> ok then raise (SigningError ActionCancelled) else done_with ()))"
  by (rule keeps_flow keeps_confirm outputs_frame_preorder | simp add: outputs_frame_def)+

lemma phase1_confirm_output_outputs_frame:
  "keeps outputs_frame (phase1_confirm_output E i txo txo_bin)"
proof -
  have "keeps outputs_frame
     (reading (\<lambda>s.
          if change_out s = 0
          then (case output_is_change E s txo of
                  Inl e \<Rightarrow> raise e
                | Inr True \<Rightarrow> modify (\<lambda>s. s\<lparr>change_out := int (txo_amount txo)\<rparr>)
                | Inr False \<Rightarrow>
                    and_then (confirm E (ConfirmOutput txo))
                      (\<lambda>ok. if \<not> ok then raise (SigningError ActionCancelled)
                             else done_with ()))
          else and_then (confirm E (ConfirmOutput txo))
                 (\<lambda>ok. if \<not> ok then raise (SigningError ActionCancelled)
                        else done_with ())))"
    unfolding keeps_def reading_def
  proof (intro allI impI)
    fix s r s'
    assume run: "(if change_out s = 0
          then (case output_is_change E s txo of
                  Inl e \<Rightarrow> raise e
                | Inr True \<Rightarrow> modify (\<lambda>s. s\<lparr>change_out := int (txo_amount txo)\<rparr>)
                | Inr False \<Rightarrow>
                    and_then (confirm E (ConfirmOutput txo))
                      (\<lambda>ok. if \<not> ok then raise (SigningError ActionCancelled)
                             else done_with ()))
          else and_then (confirm E (ConfirmOutput txo))
                 (\<lambda>ok. if \<not> ok then raise (SigningError ActionCancelled)
                        else done_with ())) s = (r, s')"
    show "outputs_frame s s'"
    proof (cases "change_out s = 0")
      case False
      with run show ?thesis using keepsD[OF confirm_output_or_cancel_frame] by simp
    next
      case True
      show ?thesis
      proof (cases "output_is_change E s txo")
        case (Inl e)
        with run True show ?thesis by (simp add: raise_def outputs_frame_def)
      next
        case (Inr b)
        show ?thesis
        proof (cases b)
          case True
          with run Inr \<open>change_out s = 0\<close> show ?thesis
            by (auto simp: modify_def outputs_frame_def)
        next
          case False
          with run Inr \<open>change_out s = 0\<close> show ?thesis
            using keepsD[OF confirm_output_or_cancel_frame] by simp
        qed
      qed
    qed
  qed
  note rd = this
  show ?thesis
    unfolding phase1_confirm_output_def
    by (rule keeps_flow rd keeps_modify outputs_frame_preorder | simp add: outputs_frame_def)+
qed

lemma phase1_output_step_outputs_frame: "keeps outputs_frame (phase1_output_step E i w)"
  unfolding phase1_output_step_def
  by (rule keeps_flow keeps_round_trip phase1_confirm_output_outputs_frame
        outputs_frame_preorder
      | simp add: outputs_frame_def)+

lemma outputs_frame_phase1_frame: "outputs_frame s s' \<Longrightarrow> tx_req_serialized s' = tx_req_serialized s \<Longrightarrow> phase1_frame s s'"
  by (simp add: outputs_frame_def phase1_frame_def)

lemma phase1_confirm_output_frame: "keeps phase1_frame (phase1_confirm_output E i txo txo_bin)"
  unfolding phase1_confirm_output_def
  by (rule keeps_flow keeps_modify keeps_confirm phase1_frame_preorder
      | simp add: phase1_frame_def)+

lemma phase1_output_step_frame: "keeps phase1_frame (phase1_output_step E i w)"
  unfolding phase1_output_step_def
  by (rule keeps_flow keeps_round_trip phase1_confirm_output_frame phase1_frame_preorder
      | simp add: phase1_frame_def)+

lemma phase1_loops_frame: "keeps phase1_frame (phase1_loops E)"
  unfolding phase1_loops_def
  by (rule keeps_flow phase1_input_step_frame phase1_output_step_frame phase1_frame_preorder)+

lemma phase1_checks_frame: "keeps phase1_frame (phase1_checks E w)"
  unfolding phase1_checks_def on_negative_fee_def
  by (rule keeps_flow keeps_confirm phase1_frame_preorder
      | simp add: phase1_frame_def)+

lemma phase1_frame: "keeps phase1_frame (phase1 E)"
  unfolding phase1_def
  by (rule keeps_flow phase1_loops_frame phase1_checks_frame phase1_frame_preorder)+




lemma legacy_input_step_frame: "keeps only_round_trips (legacy_input_step E i_sign i L)"
  unfolding legacy_input_step_def
  by (rule keeps_flow keeps_round_trip only_round_trips_preorder
      | simp add: only_round_trips_step)+

lemma legacy_output_step_frame: "keeps only_round_trips (legacy_output_step E i L)"
  unfolding legacy_output_step_def
  by (rule keeps_flow keeps_round_trip only_round_trips_preorder
      | simp add: only_round_trips_step)+

lemma legacy_restream_frame: "keeps only_round_trips (legacy_restream E i_sign)"
  unfolding legacy_restream_def
  by (rule keeps_flow legacy_input_step_frame legacy_output_step_frame
        only_round_trips_preorder)+













subsection \<open>The wallet path\<close>




subsection \<open>The multisig fingerprint check\<close>



lemmas phase1_defs = phase1_loops_def for_range_def phase1_input_step_def
  phase1_process_input_def phase1_process_segwit_input_def phase1_output_step_def
  phase1_confirm_output_def output_derive_script_def get_raw_address_def
  get_address_for_change_def startswith_def output_is_change_def from_end_def
  input_extract_wallet_path_def wallet_prefix_def BIP32_WALLET_DEPTH_def
  BIP32_CHANGE_CHAIN_def BIP32_MAX_LAST_ELEMENT_def fp_add_def fp_matches_def

lemma underfunded_loops:
  "phase1_loops underfunded_env initialize =
     (Inr ([segwit_input], [[9]]),
      initialize\<lparr>multisig_fp := \<lparr>fp_fingerprint = None, fp_mismatch = True\<rparr>,
        wallet_path := Some [44, 0, 0], bip143_in := 50, segwit := [(0, True)],
        total_in := 50, total_out := 90, h_first := [1, 44, 0, 0, 0, 4, 90, 9],
        hash143 := \<lparr>bip_prevouts = [segwit_input], bip_sequences = [segwit_input],
                     bip_outputs = [\<lparr>bin_amount = 90, bin_script_pubkey = [9]\<rparr>]\<rparr>,
        round_trips := 3, prompts := [ConfirmOutput payment_output]\<rparr>)"
  by (simp add: phase1_defs monad_defs io_defs demo_defs initialize_def)

lemma phase1_checks_negative_fee:
  "total_in s - total_out s < 0 \<Longrightarrow>
     phase1_checks E w s = (Inl (SigningError NotEnoughFunds), s)"
  by (simp add: phase1_checks_def on_negative_fee_def monad_defs Let_def)

text \<open>
  C2: when the two loops of phase 1 have run and the input total minus the output total
  is negative, phase 1 stops there with \<^verbatim>\<open>NotEnoughFunds\<close>, without a further prompt;
  phase 2 is not entered, and the run has computed no signature.
\<close>

theorem negative_fee_aborts_before_phase2:
  assumes "phase1_loops E s = (Inr w, s1)" and "total_in s1 - total_out s1 < 0"
  shows "phase1 E s = (Inl (SigningError NotEnoughFunds), s1)
         \<and> and_then (phase1 E) (\<lambda>_. phase2 E) s = (Inl (SigningError NotEnoughFunds), s1)
         \<and> signed s1 = signed s
         \<and> (s = initialize \<longrightarrow>
              signer E = (Inl (SigningError NotEnoughFunds), s1) \<and> signed s1 = [])"
proof -
  have p1: "phase1 E s = (Inl (SigningError NotEnoughFunds), s1)"
    unfolding phase1_def
    by (simp add: and_then_def assms(1) phase1_checks_negative_fee[OF assms(2)])
  have run: "and_then (phase1 E) (\<lambda>_. phase2 E) s = (Inl (SigningError NotEnoughFunds), s1)"
    by (simp add: and_then_def p1)
  have sg: "signed s1 = signed s"
    using keepsD[OF phase1_loops_frame assms(1)] by (simp add: phase1_frame_def)
  show ?thesis using p1 run sg by (auto simp: signer_def initialize_def)
qed

theorem negative_fee_aborts_before_phase2_witness:
  "fst (phase1_loops underfunded_env initialize) = Inr ([segwit_input], [[9]])
   \<and> total_in (snd (phase1_loops underfunded_env initialize))
       - total_out (snd (phase1_loops underfunded_env initialize)) < 0
   \<and> signer underfunded_env
       = (Inl (SigningError NotEnoughFunds), snd (phase1_loops underfunded_env initialize))
   \<and> signed (snd (signer underfunded_env)) = []"
proof -
  let ?s1 = "snd (phase1_loops underfunded_env initialize)"
  have a: "phase1_loops underfunded_env initialize = (Inr ([segwit_input], [[9]]), ?s1)"
    by (simp add: underfunded_loops)
  have b: "total_in ?s1 - total_out ?s1 < 0"
    unfolding underfunded_loops by (simp add: initialize_def)
  have c: "fst (phase1_loops underfunded_env initialize) = Inr ([segwit_input], [[9]])"
    by (simp add: underfunded_loops)
  have d: "signed initialize = []" by (simp add: initialize_def)
  show ?thesis
    using negative_fee_aborts_before_phase2[OF a b] b c d by simp
qed

subsection \<open>The change output\<close>

lemma confirm_output_or_cancel:
  "and_then (confirm E (ConfirmOutput txo))
     (\<lambda>ok. if \<not> ok then raise (SigningError ActionCancelled) else done_with ()) s =
   (if user_confirms (hst E) (round_trips s) (ConfirmOutput txo) then Inr ()
    else Inl (SigningError ActionCancelled),
    s\<lparr>round_trips := round_trips s + 1, prompts := prompts s @ [ConfirmOutput txo]\<rparr>)"
  by (simp add: monad_defs io_defs)

lemma phase1_confirm_output_skip:
  assumes "change_out s = 0" and "output_is_change E s txo = Inr True"
  shows "phase1_confirm_output E i txo txo_bin s =
           (Inr (), s\<lparr>change_out := int (txo_amount txo),
                      h_first := h_first s @ enc_tx_output (prim E) txo_bin,
                      hash143 := (hash143 s)\<lparr>bip_outputs := bip_outputs (hash143 s) @ [txo_bin]\<rparr>,
                      total_out := total_out s + int (bin_amount txo_bin)\<rparr>)"
  using assms by (simp add: phase1_confirm_output_def monad_defs)

lemma phase1_confirm_output_ask:
  assumes "change_out s \<noteq> 0 \<or> output_is_change E s txo = Inr False"
  shows "phase1_confirm_output E i txo txo_bin s =
           (if user_confirms (hst E) (round_trips s) (ConfirmOutput txo)
            then (Inr (), s\<lparr>round_trips := round_trips s + 1,
                             prompts := prompts s @ [ConfirmOutput txo],
                             h_first := h_first s @ enc_tx_output (prim E) txo_bin,
                             hash143 := (hash143 s)\<lparr>bip_outputs := bip_outputs (hash143 s) @ [txo_bin]\<rparr>,
                             total_out := total_out s + int (bin_amount txo_bin)\<rparr>)
            else (Inl (SigningError ActionCancelled),
                  s\<lparr>round_trips := round_trips s + 1,
                    prompts := prompts s @ [ConfirmOutput txo]\<rparr>))"
proof -
  have "reading (\<lambda>s.
          if change_out s = 0
          then (case output_is_change E s txo of
                  Inl e \<Rightarrow> raise e
                | Inr True \<Rightarrow> modify (\<lambda>s. s\<lparr>change_out := int (txo_amount txo)\<rparr>)
                | Inr False \<Rightarrow>
                    and_then (confirm E (ConfirmOutput txo))
                      (\<lambda>ok. if \<not> ok then raise (SigningError ActionCancelled)
                             else done_with ()))
          else and_then (confirm E (ConfirmOutput txo))
                 (\<lambda>ok. if \<not> ok then raise (SigningError ActionCancelled)
                        else done_with ())) s =
        and_then (confirm E (ConfirmOutput txo))
                 (\<lambda>ok. if \<not> ok then raise (SigningError ActionCancelled)
                        else done_with ()) s"
    using assms by (auto simp: reading_def)
  then show ?thesis
    unfolding phase1_confirm_output_def
    by (simp add: and_then_def[of "reading _"] confirm_output_or_cancel modify_def)
qed

lemma phase1_output_step_asks:
  assumes "change_out s \<noteq> 0" and "phase1_output_step E i w s = (r, s')"
  shows "change_out s' = change_out s
         \<and> (\<forall>w'. r = Inr w' \<longrightarrow> (\<exists>txo. prompts s' = prompts s @ [ConfirmOutput txo]
                \<and> user_confirms (hst E) (round_trips s + 1) (ConfirmOutput txo)))"
  using assms
  by (auto simp: phase1_output_step_def and_then_def request_tx_output_def
      phase1_confirm_output_ask done_with_def raise_def
      split: sum.splits prod.splits if_splits)

lemma phase1_outputs_all_asked:
  "change_out s \<noteq> 0 \<Longrightarrow> for_each js (phase1_output_step E) w s = (r, s') \<Longrightarrow>
     change_out s' = change_out s
     \<and> (\<forall>w'. r = Inr w' \<longrightarrow>
           (\<exists>ps. prompts s' = prompts s @ ps \<and> length ps = length js
                 \<and> (\<forall>p \<in> set ps. \<exists>txo. p = ConfirmOutput txo)))"
proof (induction js arbitrary: w s)
  case Nil
  then show ?case by (auto simp: done_with_def)
next
  case (Cons j js)
  from Cons.prems(2)
  have "and_then (phase1_output_step E j w) (for_each js (phase1_output_step E)) s = (r, s')"
    by simp
  then show ?case
  proof (cases rule: and_then_cases)
    case (stop e)
    then show ?thesis using phase1_output_step_asks[OF Cons.prems(1) stop(1)] by simp
  next
    case (go x s1)
    from phase1_output_step_asks[OF Cons.prems(1) go(1)]
    obtain txo where c1: "change_out s1 = change_out s"
      and p1: "prompts s1 = prompts s @ [ConfirmOutput txo]" by auto
    from Cons.IH[OF _ go(2)] c1 Cons.prems(1)
    have ih: "change_out s' = change_out s1"
      "\<forall>w'. r = Inr w' \<longrightarrow>
           (\<exists>ps. prompts s' = prompts s1 @ ps \<and> length ps = length js
                 \<and> (\<forall>p \<in> set ps. \<exists>txo. p = ConfirmOutput txo))" by auto
    show ?thesis
    proof (intro conjI allI impI)
      show "change_out s' = change_out s" using ih(1) c1 by simp
    next
      fix w' assume "r = Inr w'"
      with ih(2) obtain ps where ps: "prompts s' = prompts s1 @ ps" "length ps = length js"
        "\<forall>p \<in> set ps. \<exists>txo. p = ConfirmOutput txo" by blast
      have "prompts s' = prompts s @ (ConfirmOutput txo # ps)" using ps(1) p1 by simp
      moreover have "length (ConfirmOutput txo # ps) = length (j # js)" using ps(2) by simp
      moreover have "\<forall>p \<in> set (ConfirmOutput txo # ps). \<exists>txo. p = ConfirmOutput txo"
        using ps(3) by auto
      ultimately show "\<exists>ps. prompts s' = prompts s @ ps \<and> length ps = length (j # js)
                 \<and> (\<forall>p \<in> set ps. \<exists>txo. p = ConfirmOutput txo)" by blast
    qed
  qed
qed

lemma range_two: "[0..<2] = [0, Suc 0]"
  by (simp add: numeral_2_eq_2)

lemmas phase1_run_defs = range_two phase1_loops_def for_range_def phase1_input_step_def
  phase1_process_input_def phase1_process_segwit_input_def phase1_process_nonsegwit_input_eq
  get_prevtx_output_value_eq prev_tx_stream_def get_tx_hash_def phase1_output_step_def
  phase1_confirm_output_def output_derive_script_def get_raw_address_def
  get_address_for_change_def startswith_def output_is_change_def from_end_def
  input_extract_wallet_path_def wallet_prefix_def BIP32_WALLET_DEPTH_def
  BIP32_CHANGE_CHAIN_def BIP32_MAX_LAST_ELEMENT_def fp_add_def fp_matches_def

text \<open>
  C3, as stated: only the first output that satisfies the change predicate skips the
  confirmation, and a second one must be confirmed or the run stops with
  \<^verbatim>\<open>ActionCancelled\<close>. In the run with two change outputs, the first of amount 0, and
  a user who declines everything, both outputs satisfy the predicate, the two loops of
  phase 1 finish, and no prompt was shown: the gate is \<^verbatim>\<open>self.change_out == 0\<close>, and an
  output of amount 0 leaves it open.
\<close>

theorem second_change_output_skips_confirmation:
  "output_is_change two_change_env
       (snd (for_range 1 (phase1_input_step two_change_env) [] initialize)) (change_output 0)
     = Inr True
   \<and> output_is_change two_change_env
       (snd (for_range 1 (phase1_input_step two_change_env) [] initialize)) (change_output 5)
     = Inr True
   \<and> fst (phase1_loops two_change_env initialize) = Inr ([legacy_input], [[9], [9]])
   \<and> prompts (snd (phase1_loops two_change_env initialize)) = []"
  by (simp add: phase1_run_defs monad_defs io_defs demo_defs initialize_def)

text \<open>
  C3, amended: an output skips the confirmation exactly when no change amount is recorded
  yet (\<^verbatim>\<open>change_out\<close> is 0) and it satisfies the change predicate, and its amount is
  then recorded; in every other case that does not raise, the user is asked, and declining
  stops the run with \<^verbatim>\<open>ActionCancelled\<close>. So at most one output of non-zero amount is
  treated as change, and once a non-zero change amount is recorded every later output,
  also one that satisfies the change predicate, is put to the user.
\<close>

theorem change_skips_only_while_no_amount_recorded:
  "(change_out s = 0 \<and> output_is_change E s txo = Inr True \<longrightarrow>
      fst (phase1_confirm_output E i txo txo_bin s) = Inr ()
      \<and> prompts (snd (phase1_confirm_output E i txo txo_bin s)) = prompts s
      \<and> change_out (snd (phase1_confirm_output E i txo txo_bin s)) = int (txo_amount txo))
   \<and> (change_out s = 0 \<and> output_is_change E s txo = Inl e \<longrightarrow>
      phase1_confirm_output E i txo txo_bin s = (Inl e, s))
   \<and> (change_out s \<noteq> 0 \<or> output_is_change E s txo = Inr False \<longrightarrow>
      prompts (snd (phase1_confirm_output E i txo txo_bin s)) = prompts s @ [ConfirmOutput txo]
      \<and> change_out (snd (phase1_confirm_output E i txo txo_bin s)) = change_out s
      \<and> fst (phase1_confirm_output E i txo txo_bin s) =
          (if user_confirms (hst E) (round_trips s) (ConfirmOutput txo) then Inr ()
           else Inl (SigningError ActionCancelled)))
   \<and> (change_out s \<noteq> 0 \<and> for_each js (phase1_output_step E) w s = (r, s') \<longrightarrow>
      change_out s' = change_out s
      \<and> (\<forall>w'. r = Inr w' \<longrightarrow>
            (\<exists>ps. prompts s' = prompts s @ ps \<and> length ps = length js
                  \<and> (\<forall>p \<in> set ps. \<exists>txo. p = ConfirmOutput txo))))"
proof (intro conjI impI)
  assume "change_out s = 0 \<and> output_is_change E s txo = Inl e"
  then show "phase1_confirm_output E i txo txo_bin s = (Inl e, s)"
    by (simp add: phase1_confirm_output_def monad_defs)
next
  assume a: "change_out s \<noteq> 0 \<and> for_each js (phase1_output_step E) w s = (r, s')"
  then show "change_out s' = change_out s"
    using phase1_outputs_all_asked[of s js E w r s'] by simp
  from a show "\<forall>w'. r = Inr w' \<longrightarrow>
            (\<exists>ps. prompts s' = prompts s @ ps \<and> length ps = length js
                  \<and> (\<forall>p \<in> set ps. \<exists>txo. p = ConfirmOutput txo))"
    using phase1_outputs_all_asked[of s js E w r s'] by simp
qed (simp_all add: phase1_confirm_output_skip phase1_confirm_output_ask)

theorem change_skips_only_while_no_amount_recorded_witness:
  "output_is_change two_change_env (initialize\<lparr>wallet_path := Some [44, 0, 0]\<rparr>)
       (change_output 5) = Inr True
   \<and> fst (phase1_confirm_output two_change_env 0 (change_output 5)
         \<lparr>bin_amount = 5, bin_script_pubkey = [9]\<rparr>
         (initialize\<lparr>wallet_path := Some [44, 0, 0]\<rparr>)) = Inr ()
   \<and> prompts (snd (phase1_confirm_output two_change_env 0 (change_output 5)
         \<lparr>bin_amount = 5, bin_script_pubkey = [9]\<rparr>
         (initialize\<lparr>wallet_path := Some [44, 0, 0]\<rparr>))) = []
   \<and> output_is_change two_change_env (initialize\<lparr>wallet_path := Some [44, 0, 0], change_out := 5\<rparr>)
       (change_output 7) = Inr True
   \<and> fst (phase1_confirm_output two_change_env 1 (change_output 7)
         \<lparr>bin_amount = 7, bin_script_pubkey = [9]\<rparr>
         (initialize\<lparr>wallet_path := Some [44, 0, 0], change_out := 5\<rparr>))
       = Inl (SigningError ActionCancelled)
   \<and> prompts (snd (phase1_confirm_output two_change_env 1 (change_output 7)
         \<lparr>bin_amount = 7, bin_script_pubkey = [9]\<rparr>
         (initialize\<lparr>wallet_path := Some [44, 0, 0], change_out := 5\<rparr>)))
       = [ConfirmOutput (change_output 7)]
   \<and> phase1_confirm_output demo_env 0 payment_output \<lparr>bin_amount = 90, bin_script_pubkey = [9]\<rparr>
         initialize = (Inl IndexError, initialize)
   \<and> change_out (snd (for_each [0, 1] (phase1_output_step demo_env) []
         (initialize\<lparr>wallet_path := Some [44, 0, 0], change_out := 5\<rparr>))) = 5
   \<and> length (prompts (snd (for_each [0, 1] (phase1_output_step demo_env) []
         (initialize\<lparr>wallet_path := Some [44, 0, 0], change_out := 5\<rparr>)))) = 2"
proof -
  let ?sa = "initialize\<lparr>wallet_path := Some [44, 0, 0]\<rparr>"
  let ?sb = "initialize\<lparr>wallet_path := Some [44, 0, 0], change_out := 5\<rparr>"
  note T = change_skips_only_while_no_amount_recorded
  have c1: "output_is_change two_change_env ?sa (change_output 5) = Inr True"
    and c2: "output_is_change two_change_env ?sb (change_output 7) = Inr True"
    and c3: "output_is_change demo_env initialize payment_output = Inl IndexError"
    by (simp_all add: phase1_run_defs demo_defs initialize_def)
  have z: "change_out ?sa = 0" "change_out ?sb \<noteq> 0" "change_out initialize = 0"
    "prompts ?sa = []" "prompts ?sb = []" "change_out ?sb = 5"
    by (simp_all add: initialize_def)
  have no: "\<not> user_confirms (hst two_change_env) (round_trips ?sb) (ConfirmOutput (change_output 7))"
    by (simp add: demo_defs)
  have a: "fst (phase1_confirm_output two_change_env 0 (change_output 5)
         \<lparr>bin_amount = 5, bin_script_pubkey = [9]\<rparr> ?sa) = Inr ()
     \<and> prompts (snd (phase1_confirm_output two_change_env 0 (change_output 5)
         \<lparr>bin_amount = 5, bin_script_pubkey = [9]\<rparr> ?sa)) = []"
    using T[where s = ?sa and E = two_change_env and txo = "change_output 5" and i = 0
        and txo_bin = "\<lparr>bin_amount = 5, bin_script_pubkey = [9]\<rparr>"] c1 z by simp
  have b: "fst (phase1_confirm_output two_change_env 1 (change_output 7)
         \<lparr>bin_amount = 7, bin_script_pubkey = [9]\<rparr> ?sb) = Inl (SigningError ActionCancelled)
     \<and> prompts (snd (phase1_confirm_output two_change_env 1 (change_output 7)
         \<lparr>bin_amount = 7, bin_script_pubkey = [9]\<rparr> ?sb)) = [ConfirmOutput (change_output 7)]"
    using T[where s = ?sb and E = two_change_env and txo = "change_output 7" and i = 1
        and txo_bin = "\<lparr>bin_amount = 7, bin_script_pubkey = [9]\<rparr>"] z no by simp
  have c: "phase1_confirm_output demo_env 0 payment_output
         \<lparr>bin_amount = 90, bin_script_pubkey = [9]\<rparr> initialize = (Inl IndexError, initialize)"
    using T[where s = initialize and E = demo_env and txo = payment_output and i = 0
        and e = IndexError and txo_bin = "\<lparr>bin_amount = 90, bin_script_pubkey = [9]\<rparr>"] c3 z
    by simp
  have run: "fst (for_each [0, 1] (phase1_output_step demo_env) [] ?sb) = Inr [[9], [9]]"
    by (simp add: phase1_run_defs monad_defs io_defs demo_defs initialize_def)
  have d: "change_out (snd (for_each [0, 1] (phase1_output_step demo_env) [] ?sb)) = 5
     \<and> length (prompts (snd (for_each [0, 1] (phase1_output_step demo_env) [] ?sb))) = 2"
    using T[where s = ?sb and E = demo_env and js = "[0, 1]" and w = "[]"
        and r = "fst (for_each [0, 1] (phase1_output_step demo_env) [] ?sb)"
        and s' = "snd (for_each [0, 1] (phase1_output_step demo_env) [] ?sb)"] z(2,5,6) run
    by (auto simp del: for_each.simps)
  show ?thesis using c1 c2 a b c d by simp
qed

subsection \<open>The segwit pool\<close>

lemma pool_frame_preorder: "preorder_on_sessions pool_frame"
  by (auto simp: preorder_on_sessions_def pool_frame_def)

lemma pool_frame_same:
  "bip143_in s' = bip143_in s \<Longrightarrow> signed s' = signed s \<Longrightarrow> pool_frame s s'"
  by (simp add: pool_frame_def)

lemma signed_segwit_amount_snoc:
  "signed_segwit_amount (evs @ [e]) =
     signed_segwit_amount evs
       + (if input_is_segwit (ev_input e)
          then (case txi_amount (ev_input e) of None \<Rightarrow> 0 | Some a \<Rightarrow> int a) else 0)"
  by (simp add: signed_segwit_amount_def)

lemma phase2_sign_segwit_input_eq:
  "phase2_sign_segwit_input E i s =
     (let txi = host_tx_input (hst E) (round_trips s) i;
          s1 = s\<lparr>round_trips := round_trips s + 1\<rparr> in
      if fst (input_check_wallet_path txi s) \<noteq> Inr () then (Inl (SigningError ProcessError), s1)
      else if fst (input_check_multisig_fingerprint E txi s) \<noteq> Inr ()
      then (Inl (SigningError ProcessError), s1)
      else if \<not> input_is_segwit txi then (Inl (SigningError ProcessError), s1)
      else case txi_amount txi of
        None \<Rightarrow> (Inl TypeError, s1)
      | Some a \<Rightarrow>
          if int a > bip143_in s then (Inl (SigningError ProcessError), s1)
          else
            let key_sign = keychain_derive (prim E) (txi_address_n txi);
                key_sign_pub = node_public_key key_sign;
                digest = preimage_hash (prim E) (hash143 s) txi
                           (ecdsa_hash_pubkey (adr E) key_sign_pub) get_hash_type;
                signature = ecdsa_sign E key_sign digest;
                s2 = s1\<lparr>bip143_in := bip143_in s - int a,
                        signed := signed s @ [\<lparr>ev_index = i, ev_input = txi, ev_digest = digest,
                                                ev_signature = signature\<rparr>]\<rparr>
            in case txi_multisig txi of
                 None \<Rightarrow> (Inr (witness_p2wpkh (scr E) signature key_sign_pub get_hash_type,
                               signature), s2)
               | Some ms \<Rightarrow>
                   (case multisig_pubkey_index (adr E) ms key_sign_pub of
                      Inl e \<Rightarrow> (Inl e, s2)
                    | Inr signature_index \<Rightarrow>
                        (Inr (witness_p2wsh (scr E) ms signature signature_index get_hash_type,
                              signature), s2)))"
  unfolding phase2_sign_segwit_input_def
  by (simp add: monad_defs io_defs sign_digest_def input_check_wallet_path_def
      input_check_multisig_fingerprint_def Let_def
      split: option.splits sum.splits)

lemma phase2_sign_segwit_input_pool: "keeps pool_frame (phase2_sign_segwit_input E i)"
  unfolding keeps_def phase2_sign_segwit_input_eq
  by (auto simp: Let_def pool_frame_def signed_segwit_amount_snoc
      split: if_splits option.splits sum.splits)

lemma legacy_input_step_txi_sign:
  assumes "legacy_input_step E i_sign i L s = (Inr L', s')"
    and "\<forall>t. l_txi_sign L = Some t \<longrightarrow> \<not> input_is_segwit t"
  shows "\<forall>t. l_txi_sign L' = Some t \<longrightarrow> \<not> input_is_segwit t"
  using assms unfolding legacy_input_step_def
  by (auto simp: monad_defs io_defs Let_def input_is_segwit_def
      input_check_wallet_path_def input_check_multisig_fingerprint_def
      split: if_splits option.splits sum.splits prod.splits)

lemma legacy_output_step_txi_sign:
  assumes "legacy_output_step E i L s = (Inr L', s')"
  shows "l_txi_sign L' = l_txi_sign L \<and> l_key_sign L' = l_key_sign L"
  using assms unfolding legacy_output_step_def
  by (auto simp: monad_defs io_defs Let_def split: sum.splits prod.splits)

lemma legacy_restream_txi_sign:
  assumes "legacy_restream E i_sign s = (Inr L, s')"
  shows "\<forall>t. l_txi_sign L = Some t \<longrightarrow> \<not> input_is_segwit t"
proof -
  define P where "P = (\<lambda>L :: legacy_locals. \<forall>t. l_txi_sign L = Some t \<longrightarrow> \<not> input_is_segwit t)"
  have in_step: "P L'" if "P L" "legacy_input_step E i_sign i L s = (Inr L', s')" for i L s L' s'
    using legacy_input_step_txi_sign[OF that(2)] that(1) unfolding P_def by blast
  have out_step: "P L'" if "P L" "legacy_output_step E i L s = (Inr L', s')" for i L s L' s'
    using legacy_output_step_txi_sign[OF that(2)] that(1) unfolding P_def by simp
  from assms[unfolded legacy_restream_def] show ?thesis
  proof (cases rule: and_then_cases)
    case (go L1 s1)
    have "case Inr L1 of Inr acc' \<Rightarrow> P acc' | Inl (e :: error) \<Rightarrow> True"
    proof (rule for_range_induct[where R = "\<lambda>i L s. P L" and Q = "\<lambda>e s. True", OF _ _ _ go(1)])
      show "P \<lparr>l_h_sign = write_sign_tx_header E [] False, l_h_second = [],
            l_txi_sign = None, l_key_sign = None\<rparr>" by (simp add: P_def)
    qed (use in_step in blast)+
    then have P1: "P L1" by simp
    from go(2) show ?thesis
    proof (cases rule: and_then_cases)
      case (go L2 s2)
      have "case Inr L2 of Inr acc' \<Rightarrow> P acc' | Inl (e :: error) \<Rightarrow> True"
      proof (rule for_range_induct[where R = "\<lambda>i L s. P L" and Q = "\<lambda>e s. True", OF _ _ _ go(1)])
        show "P (L1\<lparr>l_h_sign := l_h_sign L1 @ enc_varint (prim E) (tx_outputs_count (tx E))\<rparr>)"
          using P1 by (simp add: P_def)
      qed (use out_step in blast)+
      then have "P L2" by simp
      then show ?thesis using go(2) by (auto simp: done_with_def P_def)
    qed simp
  qed simp
qed

lemma sign_digest_pool:
  "\<not> input_is_segwit txi \<Longrightarrow> keeps pool_frame (sign_digest E i txi k d)"
  by (auto simp: keeps_def sign_digest_def monad_defs Let_def pool_frame_def
      signed_segwit_amount_snoc)

lemma legacy_sign_pool:
  assumes "\<forall>t. l_txi_sign L = Some t \<longrightarrow> \<not> input_is_segwit t"
  shows "keeps pool_frame (legacy_sign E i_sign L)"
proof (cases "l_txi_sign L")
  case None
  show ?thesis
    unfolding legacy_sign_def None
    by (rule keeps_flow pool_frame_preorder | simp)+
next
  case (Some t)
  then have ns: "\<not> input_is_segwit t" using assms by simp
  show ?thesis
    unfolding legacy_sign_def Some
    by (rule keeps_flow keeps_modify sign_digest_pool[OF ns] pool_frame_preorder
        | simp add: pool_frame_same Let_def)+
qed

lemma only_round_trips_pool_frame: "only_round_trips s s' \<Longrightarrow> pool_frame s s'"
  by (auto simp: only_round_trips_def pool_frame_def)

lemma phase2_sign_nonsegwit_input_pool: "keeps pool_frame (phase2_sign_nonsegwit_input E i_sign)"
  unfolding keeps_def
proof (intro allI impI)
  fix s r s'
  assume "phase2_sign_nonsegwit_input E i_sign s = (r, s')"
  then have "and_then (legacy_restream E i_sign) (legacy_sign E i_sign) s = (r, s')"
    by (simp add: phase2_sign_nonsegwit_input_def)
  then show "pool_frame s s'"
  proof (cases rule: and_then_cases)
    case (stop e)
    then show ?thesis
      using keepsD[OF legacy_restream_frame] only_round_trips_pool_frame by blast
  next
    case (go L s1)
    have a: "pool_frame s s1"
      using keepsD[OF legacy_restream_frame go(1)] only_round_trips_pool_frame by blast
    have b: "pool_frame s1 s'"
      using keepsD[OF legacy_sign_pool[OF legacy_restream_txi_sign[OF go(1)]] go(2)] .
    show ?thesis using a b pool_frame_preorder unfolding preorder_on_sessions_def by blast
  qed
qed

lemma phase2_serialize_segwit_input_pool: "keeps pool_frame (phase2_serialize_segwit_input E i)"
  unfolding phase2_serialize_segwit_input_def
  by (rule keeps_flow keeps_round_trip keeps_modify pool_frame_preorder
      | simp add: pool_frame_same)+

lemma phase2_serialize_output_pool: "keeps pool_frame (phase2_serialize_output E i)"
  unfolding phase2_serialize_output_def
  by (rule keeps_flow keeps_round_trip pool_frame_preorder | simp add: pool_frame_same)+

lemma phase2_input_step_pool: "keeps pool_frame (phase2_input_step E i u)"
  unfolding phase2_input_step_def
  by (rule keeps_flow phase2_serialize_segwit_input_pool phase2_sign_nonsegwit_input_pool
        pool_frame_preorder)+

lemma phase2_output_step_pool: "keeps pool_frame (phase2_output_step E i tx_ser)"
  unfolding phase2_output_step_def
  by (rule keeps_flow keeps_modify phase2_serialize_output_pool pool_frame_preorder
      | simp add: pool_frame_same)+

lemma phase2_witness_step_pool: "keeps pool_frame (phase2_witness_step E a i tx_ser)"
  unfolding phase2_witness_step_def
  by (rule keeps_flow keeps_modify phase2_sign_segwit_input_pool pool_frame_preorder
      | simp add: pool_frame_same)+

lemma phase2_pool: "keeps pool_frame (phase2 E)"
  unfolding phase2_def phase2_witness_pass_def
  by (rule keeps_flow keeps_modify keeps_round_trip phase2_input_step_pool
        phase2_output_step_pool phase2_witness_step_pool pool_frame_preorder
      | simp add: pool_frame_same)+

lemma phase1_process_segwit_input_eq:
  "phase1_process_segwit_input i txi s =
     (case txi_amount txi of
        None \<Rightarrow> (Inl (SigningError DataError), s)
      | Some a \<Rightarrow>
          if a = 0 then (Inl (SigningError DataError), s)
          else (Inr (), s\<lparr>segwit := AList.update i True (segwit s),
                           bip143_in := bip143_in s + int a,
                           total_in := total_in s + int a\<rparr>))"
  by (simp add: phase1_process_segwit_input_def monad_defs split: option.splits)

subsection \<open>Signing a legacy input\<close>

lemma output_derive_script_amount:
  "output_derive_script E txo = Inr (sp, txo') \<Longrightarrow> txo_amount txo' = txo_amount txo"
  unfolding output_derive_script_def
  by (auto simp: Let_def split: if_splits sum.splits option.splits)

lemma legacy_input_step_facts:
  assumes "legacy_input_step E i_sign i L s = (r, s')"
  shows "s' = s\<lparr>round_trips := round_trips s + 1\<rparr>"
    and "\<And>L'. r = Inr L' \<Longrightarrow>
          l_h_second L' = l_h_second L
            @ enc_tx_input_check (prim E) (host_tx_input (hst E) (round_trips s) i)"
    and "\<And>e. r = Inl e \<Longrightarrow> i \<noteq> i_sign \<or> input_is_segwit (host_tx_input (hst E) (round_trips s) i)
          \<Longrightarrow> e = SigningError ProcessError"
    and "i = i_sign \<Longrightarrow> input_is_segwit (host_tx_input (hst E) (round_trips s) i)
          \<Longrightarrow> \<exists>e. r = Inl e"
  using assms unfolding legacy_input_step_def
  by (auto simp: monad_defs io_defs Let_def input_is_segwit_def
      input_check_wallet_path_def input_check_multisig_fingerprint_def
      split: if_splits option.splits sum.splits prod.splits)

lemma legacy_output_step_facts:
  assumes "legacy_output_step E i L s = (r, s')"
  shows "s' = s\<lparr>round_trips := round_trips s + 1\<rparr>"
    and "\<And>L'. r = Inr L' \<Longrightarrow>
          l_h_second L' = l_h_second L
            @ enc_tx_output (prim E)
                (derived_output_bin E (host_tx_output (hst E) (round_trips s) i))"
  using assms unfolding legacy_output_step_def
  by (auto simp: monad_defs io_defs Let_def derived_output_bin_def
      dest: output_derive_script_amount
      split: if_splits option.splits sum.splits prod.splits)

lemma legacy_restream_h_second:
  assumes "legacy_restream E i_sign s = (Inr L, s')"
  shows "l_h_second L = restreamed_copies E (round_trips s)"
proof -
  let ?n = "tx_inputs_count (tx E)"
  define ins where "ins = (\<lambda>k. concat (map (\<lambda>i. enc_tx_input_check (prim E)
      (host_tx_input (hst E) (round_trips s + i) i)) [0..<k]))"
  define outs where "outs = (\<lambda>k. concat (map (\<lambda>j. enc_tx_output (prim E)
      (derived_output_bin E (host_tx_output (hst E) (round_trips s + ?n + j) j))) [0..<k]))"
  define R1 where "R1 = (\<lambda>i (L :: legacy_locals) (s1 :: session).
      round_trips s1 = round_trips s + i \<and> l_h_second L = ins i)"
  define R2 where "R2 = (\<lambda>j (L :: legacy_locals) (s1 :: session).
      round_trips s1 = round_trips s + ?n + j \<and> l_h_second L = ins ?n @ outs j)"
  from assms[unfolded legacy_restream_def] show ?thesis
  proof (cases rule: and_then_cases)
    case (go L1 s1)
    have "case Inr L1 of Inr acc' \<Rightarrow> R1 ?n acc' s1 | Inl (e :: error) \<Rightarrow> True"
    proof (rule for_range_induct[where R = R1 and Q = "\<lambda>e s. True", OF _ _ _ go(1)])
      show "R1 0 \<lparr>l_h_sign = write_sign_tx_header E [] False, l_h_second = [],
            l_txi_sign = None, l_key_sign = None\<rparr> s" by (simp add: R1_def ins_def)
    next
      fix i acc sa acc' sb
      assume "R1 i acc sa" and st: "legacy_input_step E i_sign i acc sa = (Inr acc', sb)"
      then show "R1 (Suc i) acc' sb"
        using legacy_input_step_facts(1,2)[OF st] by (simp add: R1_def ins_def)
    qed simp
    then have r1: "round_trips s1 = round_trips s + ?n" "l_h_second L1 = ins ?n"
      by (simp_all add: R1_def)
    from go(2) show ?thesis
    proof (cases rule: and_then_cases)
      case (go L2 s2)
      have "case Inr L2 of Inr acc' \<Rightarrow> R2 (tx_outputs_count (tx E)) acc' s2
            | Inl (e :: error) \<Rightarrow> True"
      proof (rule for_range_induct[where R = R2 and Q = "\<lambda>e s. True", OF _ _ _ go(1)])
        show "R2 0 (L1\<lparr>l_h_sign := l_h_sign L1 @ enc_varint (prim E) (tx_outputs_count (tx E))\<rparr>) s1"
          using r1 by (simp add: R2_def outs_def)
      next
        fix i acc sa acc' sb
        assume "R2 i acc sa" and st: "legacy_output_step E i acc sa = (Inr acc', sb)"
        then show "R2 (Suc i) acc' sb"
          using legacy_output_step_facts[OF st] by (simp add: R2_def outs_def)
      qed simp
      then have "l_h_second L2 = ins ?n @ outs (tx_outputs_count (tx E))"
        by (simp add: R2_def)
      then show ?thesis
        using go(2) by (auto simp: done_with_def restreamed_copies_def ins_def outs_def)
    qed simp
  qed simp
qed

lemma legacy_sign_eq:
  "legacy_sign E i_sign L s =
     (if get_tx_hash E (h_first s) False False \<noteq> get_tx_hash E (l_h_second L) False False
      then (Inl (SigningError ProcessError), s)
      else case l_txi_sign L of
        None \<Rightarrow> (Inl UnboundLocalError, s)
      | Some txi_sign \<Rightarrow>
          (case l_key_sign L of
             None \<Rightarrow> (Inl UnboundLocalError, s)
           | Some key_sign \<Rightarrow>
               (case (case txi_multisig txi_sign of
                        None \<Rightarrow> Inr 0
                      | Some ms \<Rightarrow> multisig_pubkey_index (adr E) ms (node_public_key key_sign)) of
                  Inl e \<Rightarrow> (Inl e, s)
                | Inr _ \<Rightarrow>
                    let digest = get_tx_hash E (l_h_sign L) (coin_sign_hash_double (coin E)) False;
                        signature = ecdsa_sign E key_sign digest;
                        s2 = s\<lparr>signed := signed s @
                               [\<lparr>ev_index = i_sign, ev_input = txi_sign, ev_digest = digest,
                                 ev_signature = signature\<rparr>]\<rparr>
                    in case input_derive_script E txi_sign (node_public_key key_sign)
                              (Some signature) of
                         Inl e \<Rightarrow> (Inl e, s2)
                       | Inr script_sig \<Rightarrow>
                           (Inr (),
                            s2\<lparr>tx_req_serialized :=
                                 Some \<lparr>ser_signature_index = Some i_sign,
                                       ser_signature = Some signature,
                                       ser_serialized_tx =
                                         Some ((if i_sign = 0
                                                then write_sign_tx_header E [] (any_segwit s)
                                                else [])
                                               @ enc_tx_input (prim E)
                                                   (txi_sign\<lparr>txi_script_sig := script_sig\<rparr>))\<rparr>\<rparr>))))"
  unfolding legacy_sign_def
  by (simp add: monad_defs sign_digest_def Let_def any_segwit_def
      split: option.splits sum.splits)

text \<open>
  C1: to sign a non-segwit input the controller requests every input and every output
  again and folds the copies, as the host sent them, into \<^verbatim>\<open>h_second\<close>. If the
  re-stream itself stops, the run stops with that error and no signature. If it completes
  and the digest of \<^verbatim>\<open>h_first\<close> differs from the digest of \<^verbatim>\<open>h_second\<close>, the run
  stops with a \<^verbatim>\<open>ProcessError\<close> and no signature has been computed. A signature for
  the input is computed only when the two digests are equal.
\<close>

theorem legacy_signature_only_when_digests_agree:
  assumes "phase2_sign_nonsegwit_input E i_sign s = (r, s')"
  shows "(\<forall>e s1. legacy_restream E i_sign s = (Inl e, s1) \<longrightarrow>
            r = Inl e \<and> s' = s1 \<and> signed s' = signed s)
         \<and> (\<forall>L s1. legacy_restream E i_sign s = (Inr L, s1) \<longrightarrow>
               l_h_second L = restreamed_copies E (round_trips s)
               \<and> (get_tx_hash E (h_first s) False False
                     \<noteq> get_tx_hash E (restreamed_copies E (round_trips s)) False False
                   \<longrightarrow> r = Inl (SigningError ProcessError) \<and> s' = s1
                       \<and> signed s' = signed s))
         \<and> (signed s' \<noteq> signed s \<or> r = Inr () \<longrightarrow>
               get_tx_hash E (h_first s) False False
                 = get_tx_hash E (restreamed_copies E (round_trips s)) False False
               \<and> (\<exists>ev. signed s' = signed s @ [ev] \<and> ev_index ev = i_sign))"
proof -
  from assms
  have run: "and_then (legacy_restream E i_sign) (legacy_sign E i_sign) s = (r, s')"
    by (simp add: phase2_sign_nonsegwit_input_def)
  then show ?thesis
  proof (cases rule: and_then_cases)
    case (stop e)
    have "only_round_trips s s'" using keepsD[OF legacy_restream_frame stop(1)] .
    then have "signed s' = signed s" by (auto simp: only_round_trips_def)
    then show ?thesis using stop by simp
  next
    case (go L s1)
    have "only_round_trips s s1" using keepsD[OF legacy_restream_frame go(1)] .
    then have same: "signed s1 = signed s" "h_first s1 = h_first s"
      by (auto simp: only_round_trips_def)
    have hs: "l_h_second L = restreamed_copies E (round_trips s)"
      using legacy_restream_h_second[OF go(1)] .
    show ?thesis
    proof (cases "get_tx_hash E (h_first s) False False
                 = get_tx_hash E (restreamed_copies E (round_trips s)) False False")
      case False
      then have "r = Inl (SigningError ProcessError) \<and> s' = s1"
        using go(2) hs same by (simp add: legacy_sign_eq)
      then show ?thesis using go(1) hs same False by auto
    next
      case True
      have "signed s' \<noteq> signed s \<or> r = Inr () \<longrightarrow>
          (\<exists>ev. signed s' = signed s @ [ev] \<and> ev_index ev = i_sign)"
        using go(2) same
        by (auto simp: legacy_sign_eq Let_def split: if_splits option.splits sum.splits)
      then show ?thesis using go(1) hs True by auto
    qed
  qed
qed

lemmas legacy_run_defs = phase2_sign_nonsegwit_input_def legacy_restream_def for_range_def
  legacy_input_step_def legacy_output_step_def legacy_sign_eq input_check_wallet_path_def
  input_check_multisig_fingerprint_def wallet_prefix_def BIP32_WALLET_DEPTH_def
  output_derive_script_def get_raw_address_def get_address_for_change_def startswith_def
  input_derive_script_def write_sign_tx_header_def write_tx_header_def get_tx_hash_def
  ecdsa_sign_def get_hash_type_def any_segwit_def Let_def

theorem legacy_signature_only_when_digests_agree_witness:
  "fst (phase2_sign_nonsegwit_input demo_env 0 after_phase1) = Inr ()
   \<and> get_tx_hash demo_env (h_first after_phase1) False False
       = get_tx_hash demo_env (restreamed_copies demo_env (round_trips after_phase1)) False False
   \<and> length (signed (snd (phase2_sign_nonsegwit_input demo_env 0 after_phase1))) = 1
   \<and> l_h_second (projr (fst (legacy_restream tampering_env 0 after_phase1)))
       = [0, 44, 0, 0, 0, 3, 91, 9]
   \<and> get_tx_hash tampering_env (h_first after_phase1) False False
       \<noteq> get_tx_hash tampering_env (restreamed_copies tampering_env (round_trips after_phase1))
           False False
   \<and> fst (phase2_sign_nonsegwit_input tampering_env 0 after_phase1)
       = Inl (SigningError ProcessError)
   \<and> signed (snd (phase2_sign_nonsegwit_input tampering_env 0 after_phase1)) = []"
proof -
  note T = legacy_signature_only_when_digests_agree
  let ?ok = "phase2_sign_nonsegwit_input demo_env 0 after_phase1"
  let ?bad = "phase2_sign_nonsegwit_input tampering_env 0 after_phase1"
  let ?L = "\<lparr>l_h_sign = [1, 1, 0, 44, 0, 0, 0, 3, 1, 91, 9, 0, 1],
         l_h_second = [0, 44, 0, 0, 0, 3, 91, 9],
         l_txi_sign = Some (legacy_input\<lparr>txi_script_sig := [44, 0, 0, 0, 3]\<rparr>),
         l_key_sign = Some \<lparr>node_private_key = [44, 0, 0, 0, 3],
                             node_public_key = [44, 0, 0, 0, 3]\<rparr>\<rparr>"
  have z: "signed after_phase1 = []" by (simp add: after_phase1_def initialize_def)
  have ok: "fst ?ok = Inr ()"
    by (simp add: legacy_run_defs monad_defs io_defs demo_defs after_phase1_def initialize_def)
  have a: "get_tx_hash demo_env (h_first after_phase1) False False
       = get_tx_hash demo_env (restreamed_copies demo_env (round_trips after_phase1)) False False
     \<and> (\<exists>ev. signed (snd ?ok) = signed after_phase1 @ [ev] \<and> ev_index ev = 0)"
  proof -
    have "?ok = (Inr (), snd ?ok)" using ok by (simp add: prod_eq_iff)
    from T[OF this] show ?thesis by simp
  qed
  have rs: "fst (legacy_restream tampering_env 0 after_phase1) = Inr ?L"
    by (simp add: legacy_run_defs monad_defs io_defs demo_defs after_phase1_def initialize_def)
  then have rs': "legacy_restream tampering_env 0 after_phase1
      = (Inr ?L, snd (legacy_restream tampering_env 0 after_phase1))"
    by (simp add: prod_eq_iff)
  have ne: "get_tx_hash tampering_env (h_first after_phase1) False False
       \<noteq> get_tx_hash tampering_env (restreamed_copies tampering_env (round_trips after_phase1))
           False False"
    by (simp add: get_tx_hash_def restreamed_copies_def derived_output_bin_def
        output_derive_script_def get_raw_address_def startswith_def demo_defs after_phase1_def
        initialize_def)
  have b: "fst ?bad = Inl (SigningError ProcessError) \<and> signed (snd ?bad) = []"
  proof -
    have "?bad = (fst ?bad, snd ?bad)" by simp
    from T[OF this] rs' ne z show ?thesis by auto
  qed
  show ?thesis using ok a rs ne b z by auto
qed

subsection \<open>A classification that changes between the phases\<close>

lemma legacy_inputs_loop_flip:
  assumes flip: "input_is_segwit (host_tx_input (hst E) (round_trips s + i_sign) i_sign)"
    and lt: "i_sign < n"
    and run: "for_range n (legacy_input_step E i_sign) L0 s = (r, s')"
  shows "r = Inl (SigningError ProcessError)"
proof -
  define R where "R = (\<lambda>i (L :: legacy_locals) (s1 :: session).
      i \<le> i_sign \<and> round_trips s1 = round_trips s + i)"
  have "case r of Inr acc' \<Rightarrow> R n acc' s' | Inl e \<Rightarrow> e = SigningError ProcessError"
  proof (rule for_range_induct[where R = R and Q = "\<lambda>e s. e = SigningError ProcessError",
        OF _ _ _ run])
    show "R 0 L0 s" by (simp add: R_def)
  next
    fix i acc sa acc' sb
    assume i: "i < n" and R: "R i acc sa"
      and st: "legacy_input_step E i_sign i acc sa = (Inr acc', sb)"
    have "i \<noteq> i_sign"
    proof
      assume "i = i_sign"
      then have "\<exists>e. (Inr acc' :: error + legacy_locals) = Inl e"
        using legacy_input_step_facts(4)[OF st] flip R by (simp add: R_def)
      then show False by simp
    qed
    then show "R (Suc i) acc' sb"
      using R legacy_input_step_facts(1)[OF st] by (simp add: R_def)
  next
    fix i acc sa e sb
    assume i: "i < n" and R: "R i acc sa"
      and st: "legacy_input_step E i_sign i acc sa = (Inl e, sb)"
    have "i \<noteq> i_sign \<or> input_is_segwit (host_tx_input (hst E) (round_trips sa) i)"
      using flip R by (auto simp: R_def)
    then show "e = SigningError ProcessError"
      using legacy_input_step_facts(3)[OF st] by simp
  qed
  then show ?thesis using lt by (cases r) (auto simp: R_def)
qed

lemma phase2_sign_nonsegwit_input_flip:
  assumes "input_is_segwit (host_tx_input (hst E) (round_trips s + i_sign) i_sign)"
    and "i_sign < tx_inputs_count (tx E)"
  shows "fst (phase2_sign_nonsegwit_input E i_sign s) = Inl (SigningError ProcessError)"
    and "signed (snd (phase2_sign_nonsegwit_input E i_sign s)) = signed s"
proof -
  obtain r1 s1 where loop: "for_range (tx_inputs_count (tx E)) (legacy_input_step E i_sign)
          \<lparr>l_h_sign = write_sign_tx_header E [] False, l_h_second = [],
            l_txi_sign = None, l_key_sign = None\<rparr> s = (r1, s1)"
    by (cases "for_range (tx_inputs_count (tx E)) (legacy_input_step E i_sign)
          \<lparr>l_h_sign = write_sign_tx_header E [] False, l_h_second = [],
            l_txi_sign = None, l_key_sign = None\<rparr> s")
  have r1: "r1 = Inl (SigningError ProcessError)"
    using legacy_inputs_loop_flip[OF assms loop] .
  have rs: "legacy_restream E i_sign s = (Inl (SigningError ProcessError), s1)"
    unfolding legacy_restream_def using loop r1 by (simp add: and_then_def)
  then have run: "phase2_sign_nonsegwit_input E i_sign s = (Inl (SigningError ProcessError), s1)"
    by (simp add: phase2_sign_nonsegwit_input_def and_then_def)
  show "fst (phase2_sign_nonsegwit_input E i_sign s) = Inl (SigningError ProcessError)"
    using run by simp
  have "only_round_trips s s1" using keepsD[OF legacy_restream_frame rs] .
  then show "signed (snd (phase2_sign_nonsegwit_input E i_sign s)) = signed s"
    using run by (auto simp: only_round_trips_def)
qed

lemma phase2_serialize_segwit_input_flip:
  "\<not> input_is_segwit (host_tx_input (hst E) (round_trips s) i) \<Longrightarrow>
     phase2_serialize_segwit_input E i s =
       (Inl (SigningError ProcessError), s\<lparr>round_trips := round_trips s + 1\<rparr>)"
  by (simp add: phase2_serialize_segwit_input_def monad_defs io_defs)

lemma segwit_at_eq:
  "map_of (segwit s) i = Some b \<Longrightarrow> segwit_at i s = (Inr b, s)"
  by (simp add: segwit_at_def monad_defs)

text \<open>
  C6: when an input was classified as segwit in phase 1 and the descriptor requested again
  for it in phase 2 is not segwit, the serialisation pass and the witness pass both stop
  with a \<^verbatim>\<open>ProcessError\<close>, and the witness pass has computed no signature for it. When
  an input was classified as non-segwit and the descriptor requested again for it while it
  is being signed is segwit, the run stops with a \<^verbatim>\<open>ProcessError\<close> and no signature.
\<close>

theorem classification_flip_aborts:
  "(map_of (segwit s) i = Some True
      \<and> \<not> input_is_segwit (host_tx_input (hst E) (round_trips s) i) \<longrightarrow>
        phase2_input_step E i u s =
          (Inl (SigningError ProcessError), s\<lparr>round_trips := round_trips s + 1\<rparr>)
        \<and> fst (phase2_witness_step E a i tx_ser s) = Inl (SigningError ProcessError)
        \<and> signed (snd (phase2_witness_step E a i tx_ser s)) = signed s)
   \<and> (map_of (segwit s) i = Some False \<and> i < tx_inputs_count (tx E)
      \<and> input_is_segwit (host_tx_input (hst E) (round_trips s + i) i) \<longrightarrow>
        fst (phase2_input_step E i u s) = Inl (SigningError ProcessError)
        \<and> signed (snd (phase2_input_step E i u s)) = signed s)"
proof (intro conjI impI)
  assume h: "map_of (segwit s) i = Some True
      \<and> \<not> input_is_segwit (host_tx_input (hst E) (round_trips s) i)"
  then show "phase2_input_step E i u s =
          (Inl (SigningError ProcessError), s\<lparr>round_trips := round_trips s + 1\<rparr>)"
    by (simp add: phase2_input_step_def and_then_def segwit_at_eq
        phase2_serialize_segwit_input_flip)
  have sg: "fst (phase2_sign_segwit_input E i s) = Inl (SigningError ProcessError)
      \<and> signed (snd (phase2_sign_segwit_input E i s)) = signed s"
    using h by (simp add: phase2_sign_segwit_input_eq Let_def)
  obtain r1 s1 where p: "phase2_sign_segwit_input E i s = (r1, s1)"
    by (cases "phase2_sign_segwit_input E i s")
  with sg have "r1 = Inl (SigningError ProcessError)" "signed s1 = signed s" by simp_all
  with p h show "fst (phase2_witness_step E a i tx_ser s) = Inl (SigningError ProcessError)"
    and "signed (snd (phase2_witness_step E a i tx_ser s)) = signed s"
    by (simp_all add: phase2_witness_step_def and_then_def segwit_at_eq)
next
  assume h: "map_of (segwit s) i = Some False \<and> i < tx_inputs_count (tx E)
      \<and> input_is_segwit (host_tx_input (hst E) (round_trips s + i) i)"
  then have m: "map_of (segwit s) i = Some False" by simp
  have eq: "phase2_input_step E i u s = phase2_sign_nonsegwit_input E i s"
    by (simp add: phase2_input_step_def and_then_def segwit_at_eq[OF m])
  show "fst (phase2_input_step E i u s) = Inl (SigningError ProcessError)"
    and "signed (snd (phase2_input_step E i u s)) = signed s"
    unfolding eq using phase2_sign_nonsegwit_input_flip[of E s i] h by simp_all
qed

theorem classification_flip_aborts_witness:
  "map_of (segwit (initialize\<lparr>segwit := [(0, True)], wallet_path := None, round_trips := 3\<rparr>)) 0
     = Some True
   \<and> \<not> input_is_segwit (host_tx_input (hst legacy_flip_env) 3 0)
   \<and> fst (phase2_input_step legacy_flip_env 0 ()
        (initialize\<lparr>segwit := [(0, True)], wallet_path := None, round_trips := 3\<rparr>))
       = Inl (SigningError ProcessError)
   \<and> fst (phase2_witness_step legacy_flip_env True 0
        \<lparr>ser_signature_index = None, ser_signature = None, ser_serialized_tx = Some []\<rparr>
        (initialize\<lparr>segwit := [(0, True)], wallet_path := None, round_trips := 3\<rparr>))
       = Inl (SigningError ProcessError)
   \<and> signed (snd (phase2_witness_step legacy_flip_env True 0
        \<lparr>ser_signature_index = None, ser_signature = None, ser_serialized_tx = Some []\<rparr>
        (initialize\<lparr>segwit := [(0, True)], wallet_path := None, round_trips := 3\<rparr>))) = []
   \<and> map_of (segwit after_phase1) 0 = Some False
   \<and> input_is_segwit (host_tx_input (hst segwit_flip_env) (round_trips after_phase1 + 0) 0)
   \<and> fst (phase2_input_step segwit_flip_env 0 () after_phase1)
       = Inl (SigningError ProcessError)
   \<and> signed (snd (phase2_input_step segwit_flip_env 0 () after_phase1)) = []"
proof -
  let ?s = "initialize\<lparr>segwit := [(0, True)], wallet_path := None, round_trips := 3\<rparr>"
  note T = classification_flip_aborts
  have h1: "map_of (segwit ?s) 0 = Some True"
    "\<not> input_is_segwit (host_tx_input (hst legacy_flip_env) (round_trips ?s) 0)"
    "round_trips ?s = 3" "signed ?s = []"
    by (simp_all add: demo_defs input_is_segwit_def initialize_def)
  have h2: "map_of (segwit after_phase1) 0 = Some False"
    "0 < tx_inputs_count (tx segwit_flip_env)"
    "input_is_segwit (host_tx_input (hst segwit_flip_env) (round_trips after_phase1 + 0) 0)"
    "signed after_phase1 = []"
    by (simp_all add: demo_defs input_is_segwit_def initialize_def)
  have a: "phase2_input_step legacy_flip_env 0 () ?s =
          (Inl (SigningError ProcessError), ?s\<lparr>round_trips := round_trips ?s + 1\<rparr>)
        \<and> fst (phase2_witness_step legacy_flip_env True 0
             \<lparr>ser_signature_index = None, ser_signature = None, ser_serialized_tx = Some []\<rparr> ?s)
            = Inl (SigningError ProcessError)
        \<and> signed (snd (phase2_witness_step legacy_flip_env True 0
             \<lparr>ser_signature_index = None, ser_signature = None, ser_serialized_tx = Some []\<rparr> ?s))
            = signed ?s"
    using T[where s = ?s and i = 0 and E = legacy_flip_env and u = "()" and a = True
        and tx_ser = "\<lparr>ser_signature_index = None, ser_signature = None,
          ser_serialized_tx = Some []\<rparr>"] h1(1,2) by blast
  have b: "fst (phase2_input_step segwit_flip_env 0 () after_phase1)
       = Inl (SigningError ProcessError)
     \<and> signed (snd (phase2_input_step segwit_flip_env 0 () after_phase1)) = signed after_phase1"
    using T[where s = after_phase1 and i = 0 and E = segwit_flip_env and u = "()"] h2(1,2,3)
    by blast
  show ?thesis using h1 h2 a b by simp
qed

subsection \<open>Empty witnesses for legacy inputs\<close>

lemma witness_stub_gating:
  assumes "map_of (segwit s) i = Some False"
  shows "\<not> any_sw \<Longrightarrow>
           phase2_witness_step E any_sw i tx_ser s =
             (Inr tx_ser, s\<lparr>tx_req_serialized := Some tx_ser\<rparr>)"
    and "any_sw \<Longrightarrow> ser_serialized_tx tx_ser = Some b \<Longrightarrow>
           phase2_witness_step E any_sw i tx_ser s =
             (Inr (tx_ser\<lparr>ser_serialized_tx := Some (b @ [0]), ser_signature_index := None,
                           ser_signature := None\<rparr>),
              s\<lparr>tx_req_serialized :=
                   Some (tx_ser\<lparr>ser_serialized_tx := Some (b @ [0]),
                                 ser_signature_index := None, ser_signature := None\<rparr>)\<rparr>)"
    and "any_sw \<Longrightarrow> ser_serialized_tx tx_ser = None \<Longrightarrow>
           phase2_witness_step E any_sw i tx_ser s = (Inl TypeError, s)"
  by (simp_all add: phase2_witness_step_def and_then_def segwit_at_eq[OF assms] done_with_def
      raise_def modify_def)

lemma no_segwit_no_stub:
  assumes "\<forall>i < n. map_of (segwit s) i = Some False"
  shows "for_range n (phase2_witness_step E False) tx_ser s =
           (Inr tx_ser, if n = 0 then s else s\<lparr>tx_req_serialized := Some tx_ser\<rparr>)"
  using assms
proof (induction n)
  case 0
  then show ?case by (simp add: for_range_def done_with_def)
next
  case (Suc n)
  then have IH: "for_each [0..<n] (phase2_witness_step E False) tx_ser s =
           (Inr tx_ser, if n = 0 then s else s\<lparr>tx_req_serialized := Some tx_ser\<rparr>)"
    by (simp add: for_range_def)
  have m: "map_of (segwit (if n = 0 then s else s\<lparr>tx_req_serialized := Some tx_ser\<rparr>)) n
      = Some False"
    using Suc.prems by simp
  show ?case
    unfolding for_range_def
    by (subst for_each_snoc_Inr[OF IH]) (simp add: witness_stub_gating(1)[OF m])
qed

lemmas phase2_run_defs = signer_def phase1_def phase1_checks_def on_negative_fee_def
  phase2_def phase2_input_step_def segwit_at_def phase2_serialize_segwit_input_def
  phase2_output_step_def phase2_serialize_output_def phase2_witness_pass_def
  phase2_witness_step_def phase2_sign_segwit_input_eq request_tx_finish_def
  write_sign_tx_footer_def input_is_segwit_def

text \<open>
  C8 on a transaction without outputs whose first input is legacy and whose second is
  segwit: both inputs are classified, one of them as segwit, and the witness pass, which
  has to stream the empty witness of input 0, finds no serialised bytes to append to
  (\<^verbatim>\<open>tx_ser.serialized_tx\<close> is still \<^verbatim>\<open>None\<close>) and stops with a \<^verbatim>\<open>TypeError\<close>.
\<close>

theorem empty_witness_without_buffer_raises:
  "fst (signer no_output_env) = Inl TypeError
   \<and> segwit (snd (signer no_output_env)) = [(0, False), (1, True)]
   \<and> any_segwit (snd (signer no_output_env))"
  by (simp add: phase2_run_defs phase1_run_defs legacy_run_defs monad_defs io_defs demo_defs
      initialize_def)

subsection \<open>What phase 1 puts into the segwit pool\<close>

lemma inputs_frame_preorder: "preorder_on_sessions inputs_frame"
  by (auto simp: preorder_on_sessions_def inputs_frame_def)

lemma segwit_amounts_snoc:
  "segwit_amounts (ts @ [t]) =
     segwit_amounts ts
       + (if input_is_segwit t
          then (case txi_amount t of None \<Rightarrow> 0 | Some a \<Rightarrow> int a) else 0)"
  by (simp add: segwit_amounts_def)

lemma segwit_amounts_nonneg: "0 \<le> segwit_amounts ts"
  unfolding segwit_amounts_def by (rule sum_list_nonneg) (auto split: option.splits)

lemma phase1_process_nonsegwit_input_inputs:
  "keeps inputs_frame (phase1_process_nonsegwit_input E i txi)"
  unfolding phase1_process_nonsegwit_input_def
  by (rule keeps_flow keeps_modify keeps_get_prevtx_output_value inputs_frame_preorder
      | simp add: inputs_frame_def)+

lemma phase1_process_input_intake:
  assumes "phase1_process_input E i txi s = (r, s')"
  shows "bip_prevouts (hash143 s') = bip_prevouts (hash143 s) @ [txi]
     \<and> bip143_in s' = bip143_in s
          + (if input_is_segwit txi
             then (case txi_amount txi of None \<Rightarrow> 0 | Some a \<Rightarrow> int a) else 0)
     \<and> signed s' = signed s"
proof -
  have ns: "inputs_frame s0 s1"
    if "phase1_process_nonsegwit_input E i txi s0 = (r0, s1)" for s0 r0 s1
    using keepsD[OF phase1_process_nonsegwit_input_inputs that] .
  show ?thesis
    using assms ns unfolding phase1_process_input_def
    by (auto simp: and_then_def modify_def done_with_def raise_def confirm_def
        phase1_process_segwit_input_eq input_is_segwit_def input_extract_wallet_path_def
        inputs_frame_def Let_def
        split: if_splits option.splits prod.splits sum.splits)
qed

lemma phase1_input_step_intake:
  assumes "phase1_input_step E i w s = (r, s')"
  shows "bip_prevouts (hash143 s') = bip_prevouts (hash143 s) @ [host_tx_input (hst E) (round_trips s) i]
     \<and> bip143_in s' = bip143_in s
          + (if input_is_segwit (host_tx_input (hst E) (round_trips s) i)
             then (case txi_amount (host_tx_input (hst E) (round_trips s) i) of
                     None \<Rightarrow> 0 | Some a \<Rightarrow> int a) else 0)
     \<and> signed s' = signed s
     \<and> (\<forall>w'. r = Inr w' \<longrightarrow> w' = w @ [host_tx_input (hst E) (round_trips s) i])"
proof -
  let ?t = "host_tx_input (hst E) (round_trips s) i"
  let ?s1 = "s\<lparr>round_trips := round_trips s + 1\<rparr>"
  obtain r1 s2 where p: "phase1_process_input E i ?t ?s1 = (r1, s2)"
    by (cases "phase1_process_input E i ?t ?s1")
  have eq: "(r, s') = (case r1 of Inl e \<Rightarrow> (Inl e, s2) | Inr u \<Rightarrow> (Inr (w @ [?t]), s2))"
    using assms p by (simp add: phase1_input_step_def and_then_def request_tx_input_def
        done_with_def split: sum.splits)
  have s': "s' = s2" using eq by (cases r1) simp_all
  have r: "\<forall>w'. r = Inr w' \<longrightarrow> w' = w @ [?t]" using eq by (cases r1) auto
  show ?thesis using phase1_process_input_intake[OF p] s' r by simp
qed

lemma collected_step:
  assumes "collected E w s" "length w = i" "phase1_input_step E i w s = (r, s')"
  shows "collected E (w @ [host_tx_input (hst E) (round_trips s) i]) s'"
proof -
  note st = phase1_input_step_intake[OF assms(3)]
  have "\<exists>rt. (w @ [host_tx_input (hst E) (round_trips s) i]) ! k = host_tx_input (hst E) rt k"
    if "k < Suc (length w)" for k
  proof (cases "k < length w")
    case True
    then show ?thesis using assms(1) by (simp add: collected_def nth_append)
  next
    case False
    then have "k = i" using that assms(2) by simp
    then show ?thesis using assms(2) by (auto simp: nth_append)
  qed
  then show ?thesis
    using st assms(1) by (simp add: collected_def segwit_amounts_snoc)
qed

lemma phase1_inputs_loop_intake:
  assumes "for_range n (phase1_input_step E) [] initialize = (r, s')"
  shows "case r of
           Inr w \<Rightarrow> collected E w s' \<and> length w = n
         | Inl e \<Rightarrow> collected E (bip_prevouts (hash143 s')) s'
                      \<and> length (bip_prevouts (hash143 s')) \<le> n"
proof (rule for_range_induct[where R = "\<lambda>i w s. collected E w s \<and> length w = i"
      and Q = "\<lambda>e s. collected E (bip_prevouts (hash143 s)) s
                      \<and> length (bip_prevouts (hash143 s)) \<le> n", OF _ _ _ assms])
  show "collected E [] initialize \<and> length ([] :: TxInputType list) = 0"
    by (simp add: collected_def initialize_def segwit_amounts_def)
next
  fix i w s w' s'
  assume a: "i < n" "collected E w s \<and> length w = i" "phase1_input_step E i w s = (Inr w', s')"
  have "w' = w @ [host_tx_input (hst E) (round_trips s) i]"
    using phase1_input_step_intake[OF a(3)] by simp
  then show "collected E w' s' \<and> length w' = Suc i"
    using collected_step[OF _ _ a(3)] a(2) by simp
next
  fix i w s e s'
  assume a: "i < n" "collected E w s \<and> length w = i" "phase1_input_step E i w s = (Inl e, s')"
  have c: "collected E (w @ [host_tx_input (hst E) (round_trips s) i]) s'"
    using collected_step[OF _ _ a(3)] a(2) by simp
  then have "bip_prevouts (hash143 s') = w @ [host_tx_input (hst E) (round_trips s) i]"
    by (simp add: collected_def)
  then show "collected E (bip_prevouts (hash143 s')) s' \<and> length (bip_prevouts (hash143 s')) \<le> n"
    using c a by simp
qed

lemma confirm_output_or_cancel_inputs:
  "keeps inputs_frame
     (and_then (confirm E p)
        (\<lambda>ok. if \<not> ok then raise (SigningError ActionCancelled) else done_with ()))"
  by (rule keeps_flow keeps_confirm inputs_frame_preorder | simp add: inputs_frame_def)+

lemma phase1_output_step_inputs: "keeps inputs_frame (phase1_output_step E i w)"
  unfolding phase1_output_step_def phase1_confirm_output_def
  by (rule keeps_flow keeps_modify keeps_round_trip confirm_output_or_cancel_inputs
        inputs_frame_preorder
      | simp add: inputs_frame_def)+

lemma phase1_checks_inputs: "keeps inputs_frame (phase1_checks E w)"
  unfolding phase1_checks_def on_negative_fee_def
  by (rule keeps_flow confirm_output_or_cancel_inputs inputs_frame_preorder
      | simp add: inputs_frame_def)+

lemma collected_inputs_frame: "collected E w s \<Longrightarrow> inputs_frame s s' \<Longrightarrow> collected E w s'"
  by (simp add: collected_def inputs_frame_def)

lemma phase1_loops_intake:
  assumes "phase1_loops E initialize = (r, s1)"
  shows "collected E (bip_prevouts (hash143 s1)) s1
     \<and> length (bip_prevouts (hash143 s1)) \<le> tx_inputs_count (tx E)
     \<and> (\<forall>w_in w_out. r = Inr (w_in, w_out) \<longrightarrow>
           w_in = bip_prevouts (hash143 s1) \<and> length w_in = tx_inputs_count (tx E))"
  using assms[unfolded phase1_loops_def]
proof (cases rule: and_then_cases)
  case (stop e)
  then show ?thesis using phase1_inputs_loop_intake[OF stop(1)] by simp
next
  case (go w s0)
  have c0: "collected E w s0" "length w = tx_inputs_count (tx E)"
    using phase1_inputs_loop_intake[OF go(1)] by simp_all
  have "keeps inputs_frame
     (and_then (for_range (tx_outputs_count (tx E)) (phase1_output_step E) [])
        (\<lambda>weight_out. done_with (w, weight_out)))"
    by (rule keeps_flow phase1_output_step_inputs inputs_frame_preorder)+
  then have f: "inputs_frame s0 s1" using go(2) by (rule keepsD)
  have c1: "collected E w s1" using collected_inputs_frame[OF c0(1) f] .
  then have pv: "bip_prevouts (hash143 s1) = w" by (simp add: collected_def)
  have "w_in = w" if "r = Inr (w_in, w_out)" for w_in w_out
    using go(2) that by (auto simp: and_then_def done_with_def split: sum.splits prod.splits)
  then show ?thesis using c1 pv c0(2) by auto
qed

lemma phase1_intake:
  assumes "phase1 E initialize = (r, sp)"
  shows "collected E (bip_prevouts (hash143 sp)) sp
     \<and> length (bip_prevouts (hash143 sp)) \<le> tx_inputs_count (tx E)
     \<and> (r = Inr () \<longrightarrow> length (bip_prevouts (hash143 sp)) = tx_inputs_count (tx E))"
  using assms[unfolded phase1_def]
proof (cases rule: and_then_cases)
  case (stop e)
  then show ?thesis using phase1_loops_intake[OF stop(1)] by simp
next
  case (go w s1)
  obtain w_in w_out where w: "w = (w_in, w_out)" by (cases w)
  note l = phase1_loops_intake[OF go(1)[unfolded w]]
  have f: "inputs_frame s1 sp" using keepsD[OF phase1_checks_inputs go(2)] .
  then have pv: "bip_prevouts (hash143 sp) = bip_prevouts (hash143 s1)"
    by (simp add: inputs_frame_def)
  have "collected E (bip_prevouts (hash143 s1)) sp"
    using collected_inputs_frame[OF _ f] l by simp
  moreover have "length (bip_prevouts (hash143 s1)) = tx_inputs_count (tx E)"
    using l by blast
  ultimately show ?thesis using pv by simp
qed

lemma signer_pool:
  "bip143_in (snd (signer E)) + signed_segwit_amount (signed (snd (signer E)))
     = segwit_amounts (bip_prevouts (hash143 (snd (phase1 E initialize))))
   \<and> 0 \<le> bip143_in (snd (signer E))"
proof -
  obtain r1 sp where p1: "phase1 E initialize = (r1, sp)" by (cases "phase1 E initialize")
  have c: "collected E (bip_prevouts (hash143 sp)) sp" using phase1_intake[OF p1] by simp
  then have sp: "signed sp = []" "bip143_in sp = segwit_amounts (bip_prevouts (hash143 sp))"
    by (simp_all add: collected_def)
  have nn: "0 \<le> bip143_in sp" using sp(2) segwit_amounts_nonneg by simp
  show ?thesis
  proof (cases r1)
    case (Inl e)
    then have "signer E = (Inl e, sp)" using p1 by (simp add: signer_def and_then_def)
    then show ?thesis using sp nn p1 by (simp add: signed_segwit_amount_def)
  next
    case (Inr u)
    then have "signer E = phase2 E sp" using p1 by (simp add: signer_def and_then_def)
    moreover have "pool_frame sp (snd (phase2 E sp))"
      using keepsD[OF phase2_pool, of E sp "fst (phase2 E sp)" "snd (phase2 E sp)"] by simp
    ultimately show ?thesis using sp nn p1 by (simp add: pool_frame_def signed_segwit_amount_def)
  qed
qed

subsection \<open>The segwit pool bounds the signing\<close>

text \<open>
  C9: when a segwit input is signed in the witness pass and its re-requested amount exceeds
  what is left of the pool, the run stops with a \<^verbatim>\<open>ProcessError\<close>, the pool and the
  signatures as they were. When the amount is within the pool, the boundary included, and
  the input has passed the wallet-path and multisig checks and is still segwit, the pool is
  decremented by the amount and the signature is computed; a witness is returned only for
  such an input. Phase 1 adds the amount of every segwit input to the pool: the pool it
  leaves is the sum of the amounts of the segwit inputs it has processed, each of them an
  answer of the host for its index. Through phase 2 the pool and the segwit amounts signed
  add up to the same total while the pool stays non-negative. So the segwit amounts signed
  by a run and the pool it ends with add up to the sum of the segwit amounts of phase 1,
  and the segwit amounts signed never exceed that sum.
\<close>

theorem segwit_pool_bounds_signing:
  "(phase2_sign_segwit_input E i s = (r, s') \<longrightarrow>
      (\<forall>a. txi_amount (host_tx_input (hst E) (round_trips s) i) = Some a \<and> int a > bip143_in s
           \<longrightarrow> r = Inl (SigningError ProcessError) \<and> bip143_in s' = bip143_in s
               \<and> signed s' = signed s)
      \<and> (\<forall>a. fst (input_check_wallet_path (host_tx_input (hst E) (round_trips s) i) s) = Inr ()
             \<and> fst (input_check_multisig_fingerprint E
                      (host_tx_input (hst E) (round_trips s) i) s) = Inr ()
             \<and> input_is_segwit (host_tx_input (hst E) (round_trips s) i)
             \<and> txi_amount (host_tx_input (hst E) (round_trips s) i) = Some a
             \<and> int a \<le> bip143_in s
           \<longrightarrow> bip143_in s' = bip143_in s - int a
               \<and> (\<exists>ev. signed s' = signed s @ [ev] \<and> ev_index ev = i
                      \<and> ev_input ev = host_tx_input (hst E) (round_trips s) i)
               \<and> (\<exists>x. r = Inr x) =
                   (case txi_multisig (host_tx_input (hst E) (round_trips s) i) of
                      None \<Rightarrow> True
                    | Some ms \<Rightarrow>
                        (\<exists>k. multisig_pubkey_index (adr E) ms
                               (node_public_key (keychain_derive (prim E)
                                  (txi_address_n (host_tx_input (hst E) (round_trips s) i))))
                             = Inr k)))
      \<and> (\<forall>x. r = Inr x \<longrightarrow>
            fst (input_check_wallet_path (host_tx_input (hst E) (round_trips s) i) s) = Inr ()
            \<and> fst (input_check_multisig_fingerprint E
                     (host_tx_input (hst E) (round_trips s) i) s) = Inr ()
            \<and> input_is_segwit (host_tx_input (hst E) (round_trips s) i)
            \<and> (\<exists>a. txi_amount (host_tx_input (hst E) (round_trips s) i) = Some a
                   \<and> int a \<le> bip143_in s \<and> bip143_in s' = bip143_in s - int a)
            \<and> (\<exists>ev. signed s' = signed s @ [ev] \<and> ev_index ev = i
                   \<and> ev_input ev = host_tx_input (hst E) (round_trips s) i)))
   \<and> (phase1_process_segwit_input i txi s = (Inr (), s1) \<longrightarrow>
        (\<exists>a. txi_amount txi = Some a \<and> bip143_in s1 = bip143_in s + int a
              \<and> total_in s1 = total_in s + int a))
   \<and> (phase1_loops E initialize = (Inr (w_in, w_out), sl) \<longrightarrow>
        bip143_in sl = segwit_amounts w_in \<and> length w_in = tx_inputs_count (tx E)
        \<and> (\<forall>k < length w_in. \<exists>rt. w_in ! k = host_tx_input (hst E) rt k)
        \<and> bip_prevouts (hash143 sl) = w_in \<and> signed sl = [])
   \<and> (phase1 E initialize = (r1, sp) \<longrightarrow>
        bip143_in sp = segwit_amounts (bip_prevouts (hash143 sp)) \<and> signed sp = []
        \<and> (\<forall>k < length (bip_prevouts (hash143 sp)).
              \<exists>rt. bip_prevouts (hash143 sp) ! k = host_tx_input (hst E) rt k)
        \<and> (r1 = Inr () \<longrightarrow> length (bip_prevouts (hash143 sp)) = tx_inputs_count (tx E)))
   \<and> (0 \<le> bip143_in s \<and> phase2 E s = (r2, s2) \<longrightarrow>
        0 \<le> bip143_in s2
        \<and> bip143_in s2 + signed_segwit_amount (signed s2)
            = bip143_in s + signed_segwit_amount (signed s))
   \<and> bip143_in (snd (signer E)) + signed_segwit_amount (signed (snd (signer E)))
        = segwit_amounts (bip_prevouts (hash143 (snd (phase1 E initialize))))
   \<and> 0 \<le> bip143_in (snd (signer E))
   \<and> signed_segwit_amount (signed (snd (signer E)))
        \<le> segwit_amounts (bip_prevouts (hash143 (snd (phase1 E initialize))))"
proof -
  let ?t = "host_tx_input (hst E) (round_trips s) i"
  have step: "(\<forall>a. txi_amount ?t = Some a \<and> int a > bip143_in s
           \<longrightarrow> r = Inl (SigningError ProcessError) \<and> bip143_in s' = bip143_in s
               \<and> signed s' = signed s)
      \<and> (\<forall>a. fst (input_check_wallet_path ?t s) = Inr ()
             \<and> fst (input_check_multisig_fingerprint E ?t s) = Inr ()
             \<and> input_is_segwit ?t \<and> txi_amount ?t = Some a \<and> int a \<le> bip143_in s
           \<longrightarrow> bip143_in s' = bip143_in s - int a
               \<and> (\<exists>ev. signed s' = signed s @ [ev] \<and> ev_index ev = i \<and> ev_input ev = ?t)
               \<and> (\<exists>x. r = Inr x) =
                   (case txi_multisig ?t of
                      None \<Rightarrow> True
                    | Some ms \<Rightarrow>
                        (\<exists>k. multisig_pubkey_index (adr E) ms
                               (node_public_key (keychain_derive (prim E) (txi_address_n ?t)))
                             = Inr k)))
      \<and> (\<forall>x. r = Inr x \<longrightarrow>
            fst (input_check_wallet_path ?t s) = Inr ()
            \<and> fst (input_check_multisig_fingerprint E ?t s) = Inr ()
            \<and> input_is_segwit ?t
            \<and> (\<exists>a. txi_amount ?t = Some a
                   \<and> int a \<le> bip143_in s \<and> bip143_in s' = bip143_in s - int a)
            \<and> (\<exists>ev. signed s' = signed s @ [ev] \<and> ev_index ev = i \<and> ev_input ev = ?t))"
    if "phase2_sign_segwit_input E i s = (r, s')"
    using that unfolding phase2_sign_segwit_input_eq
    by (auto simp: Let_def split: if_splits option.splits sum.splits)
  have p1seg: "\<exists>a. txi_amount txi = Some a \<and> bip143_in s1 = bip143_in s + int a
              \<and> total_in s1 = total_in s + int a"
    if "phase1_process_segwit_input i txi s = (Inr (), s1)"
    using that by (auto simp: phase1_process_segwit_input_eq split: option.splits if_splits)
  have loops: "bip143_in sl = segwit_amounts w_in \<and> length w_in = tx_inputs_count (tx E)
        \<and> (\<forall>k < length w_in. \<exists>rt. w_in ! k = host_tx_input (hst E) rt k)
        \<and> bip_prevouts (hash143 sl) = w_in \<and> signed sl = []"
    if "phase1_loops E initialize = (Inr (w_in, w_out), sl)"
  proof -
    note l = phase1_loops_intake[OF that]
    then have w: "w_in = bip_prevouts (hash143 sl)" "length w_in = tx_inputs_count (tx E)"
      by blast+
    from l have "collected E w_in sl" using w(1) by simp
    then show ?thesis using w(2) by (simp add: collected_def)
  qed
  have ph1: "bip143_in sp = segwit_amounts (bip_prevouts (hash143 sp)) \<and> signed sp = []
        \<and> (\<forall>k < length (bip_prevouts (hash143 sp)).
              \<exists>rt. bip_prevouts (hash143 sp) ! k = host_tx_input (hst E) rt k)
        \<and> (r1 = Inr () \<longrightarrow> length (bip_prevouts (hash143 sp)) = tx_inputs_count (tx E))"
    if "phase1 E initialize = (r1, sp)"
    using phase1_intake[OF that] by (simp add: collected_def)
  have ph2: "0 \<le> bip143_in s2
        \<and> bip143_in s2 + signed_segwit_amount (signed s2)
            = bip143_in s + signed_segwit_amount (signed s)"
    if "0 \<le> bip143_in s \<and> phase2 E s = (r2, s2)"
  proof -
    have "pool_frame s s2" using keepsD[OF phase2_pool] that by blast
    then show ?thesis using that by (simp add: pool_frame_def)
  qed
  have bound: "signed_segwit_amount (signed (snd (signer E)))
        \<le> segwit_amounts (bip_prevouts (hash143 (snd (phase1 E initialize))))"
    using signer_pool[of E] by linarith
  show ?thesis
    using step p1seg loops ph1 ph2 signer_pool[of E] bound by blast
qed

theorem segwit_pool_bounds_signing_witness:
  "fst (input_check_wallet_path (second_segwit_input\<lparr>txi_amount := Some 31\<rparr>)
         (segwit_after_phase1\<lparr>bip143_in := 30, round_trips := 9\<rparr>)) = Inr ()
   \<and> fst (input_check_multisig_fingerprint greedy_env
         (second_segwit_input\<lparr>txi_amount := Some 31\<rparr>)
         (segwit_after_phase1\<lparr>bip143_in := 30, round_trips := 9\<rparr>)) = Inr ()
   \<and> input_is_segwit (second_segwit_input\<lparr>txi_amount := Some 31\<rparr>)
   \<and> fst (phase2_sign_segwit_input greedy_env 1
         (segwit_after_phase1\<lparr>bip143_in := 30, round_trips := 9\<rparr>))
       = Inl (SigningError ProcessError)
   \<and> bip143_in (snd (phase2_sign_segwit_input greedy_env 1
         (segwit_after_phase1\<lparr>bip143_in := 30, round_trips := 9\<rparr>))) = 30
   \<and> signed (snd (phase2_sign_segwit_input greedy_env 1
         (segwit_after_phase1\<lparr>bip143_in := 30, round_trips := 9\<rparr>))) = []
   \<and> bip143_in (snd (phase2_sign_segwit_input segwit_env 1
         (segwit_after_phase1\<lparr>bip143_in := 30, round_trips := 9\<rparr>))) = 0
   \<and> (\<exists>ev. signed (snd (phase2_sign_segwit_input segwit_env 1
               (segwit_after_phase1\<lparr>bip143_in := 30, round_trips := 9\<rparr>))) = [ev]
            \<and> ev_index ev = 1 \<and> ev_input ev = second_segwit_input)
   \<and> (\<exists>x. fst (phase2_sign_segwit_input segwit_env 1
               (segwit_after_phase1\<lparr>bip143_in := 30, round_trips := 9\<rparr>)) = Inr x)
   \<and> fst (phase2_sign_segwit_input segwit_env 0 (segwit_after_phase1\<lparr>round_trips := 8\<rparr>))
       = Inr ([0, 0, 0, 4, 1, 44, 0, 0, 0, 4], [0, 0, 0, 4, 1])
   \<and> bip143_in (snd (phase2_sign_segwit_input segwit_env 0
         (segwit_after_phase1\<lparr>round_trips := 8\<rparr>))) = 30
   \<and> bip143_in (snd (phase1_process_segwit_input 0 segwit_input initialize)) = 50
   \<and> fst (phase1_loops segwit_env initialize) = Inr ([segwit_input, second_segwit_input], [[9]])
   \<and> bip143_in (snd (phase1_loops segwit_env initialize)) = 80
   \<and> phase1 greedy_env initialize = (Inr (), segwit_after_phase1)
   \<and> bip143_in segwit_after_phase1
       = segwit_amounts (bip_prevouts (hash143 segwit_after_phase1))
   \<and> fst (phase2 greedy_env segwit_after_phase1) = Inl (SigningError ProcessError)
   \<and> signed_segwit_amount (signed (snd (phase2 greedy_env segwit_after_phase1))) = 50
   \<and> bip143_in (snd (phase2 greedy_env segwit_after_phase1)) = 30
   \<and> fst (phase2 segwit_env segwit_after_phase1) = Inr ()
   \<and> signed_segwit_amount (signed (snd (phase2 segwit_env segwit_after_phase1))) = 80
   \<and> bip143_in (snd (phase2 segwit_env segwit_after_phase1)) = 0
   \<and> signed_segwit_amount (signed (snd (signer greedy_env))) = 50
   \<and> segwit_amounts (bip_prevouts (hash143 (snd (phase1 greedy_env initialize)))) = 80
   \<and> bip143_in (snd (signer greedy_env)) = 30"
proof -
  let ?sa = "segwit_after_phase1\<lparr>bip143_in := 30, round_trips := 9\<rparr>"
  let ?sb = "segwit_after_phase1\<lparr>round_trips := 8\<rparr>"
  let ?t31 = "second_segwit_input\<lparr>txi_amount := Some 31\<rparr>"
  note T = segwit_pool_bounds_signing
  note c2 = conjunct2[THEN conjunct1]
  note c3 = conjunct2[THEN conjunct2, THEN conjunct1]
  note c4 = conjunct2[THEN conjunct2, THEN conjunct2, THEN conjunct1]
  note c5 = conjunct2[THEN conjunct2, THEN conjunct2, THEN conjunct2, THEN conjunct1]
  note c6 = conjunct2[THEN conjunct2, THEN conjunct2, THEN conjunct2, THEN conjunct2]
  note step_defs = phase2_sign_segwit_input_eq input_check_wallet_path_def
    input_check_multisig_fingerprint_def monad_defs input_is_segwit_def ecdsa_sign_def
    get_hash_type_def wallet_prefix_def BIP32_WALLET_DEPTH_def Let_def demo_defs initialize_def
  have z: "round_trips ?sa = 9" "bip143_in ?sa = 30" "signed ?sa = []"
    "round_trips ?sb = 8" "bip143_in ?sb = 80" "signed ?sb = []"
    "bip143_in initialize = 0" "bip143_in segwit_after_phase1 = 80"
    "signed segwit_after_phase1 = []"
    by (simp_all add: segwit_after_phase1_def initialize_def)
  have h: "host_tx_input (hst greedy_env) 9 1 = ?t31"
    "host_tx_input (hst segwit_env) 9 1 = second_segwit_input"
    "host_tx_input (hst segwit_env) 8 0 = segwit_input"
    by (simp_all add: greedy_env_def segwit_env_def)
  have am: "txi_amount ?t31 = Some 31" "txi_amount second_segwit_input = Some 30"
    "txi_amount segwit_input = Some 50" "txi_multisig second_segwit_input = None"
    by (simp_all add: second_segwit_input_def segwit_input_def)
  have chk: "fst (input_check_wallet_path ?t31 ?sa) = Inr ()"
    "fst (input_check_multisig_fingerprint greedy_env ?t31 ?sa) = Inr ()"
    "input_is_segwit ?t31"
    "fst (input_check_wallet_path second_segwit_input ?sa) = Inr ()"
    "fst (input_check_multisig_fingerprint segwit_env second_segwit_input ?sa) = Inr ()"
    "input_is_segwit second_segwit_input"
    by (simp_all add: step_defs)
  have a: "fst (phase2_sign_segwit_input greedy_env 1 ?sa) = Inl (SigningError ProcessError)
      \<and> bip143_in (snd (phase2_sign_segwit_input greedy_env 1 ?sa)) = 30
      \<and> signed (snd (phase2_sign_segwit_input greedy_env 1 ?sa)) = []"
    using T[where E = greedy_env and i = 1 and s = ?sa
        and r = "fst (phase2_sign_segwit_input greedy_env 1 ?sa)"
        and s' = "snd (phase2_sign_segwit_input greedy_env 1 ?sa)", THEN conjunct1] h am z by simp
  have b: "bip143_in (snd (phase2_sign_segwit_input segwit_env 1 ?sa)) = 0
      \<and> (\<exists>ev. signed (snd (phase2_sign_segwit_input segwit_env 1 ?sa)) = [ev]
            \<and> ev_index ev = 1 \<and> ev_input ev = second_segwit_input)
      \<and> (\<exists>x. fst (phase2_sign_segwit_input segwit_env 1 ?sa) = Inr x)"
    using T[where E = segwit_env and i = 1 and s = ?sa
        and r = "fst (phase2_sign_segwit_input segwit_env 1 ?sa)"
        and s' = "snd (phase2_sign_segwit_input segwit_env 1 ?sa)", THEN conjunct1] h am z chk by simp
  have run0: "fst (phase2_sign_segwit_input segwit_env 0 ?sb)
       = Inr ([0, 0, 0, 4, 1, 44, 0, 0, 0, 4], [0, 0, 0, 4, 1])"
    by (simp add: step_defs)
  have run0': "phase2_sign_segwit_input segwit_env 0 ?sb
       = (Inr ([0, 0, 0, 4, 1, 44, 0, 0, 0, 4], [0, 0, 0, 4, 1]),
          snd (phase2_sign_segwit_input segwit_env 0 ?sb))"
    using run0 by (simp add: prod_eq_iff)
  have c: "bip143_in (snd (phase2_sign_segwit_input segwit_env 0 ?sb)) = 30"
    using T[where E = segwit_env and i = 0 and s = ?sb
        and r = "Inr ([0, 0, 0, 4, 1, 44, 0, 0, 0, 4], [0, 0, 0, 4, 1])"
        and s' = "snd (phase2_sign_segwit_input segwit_env 0 ?sb)", THEN conjunct1] h am z run0' by auto
  have run1: "fst (phase1_process_segwit_input 0 segwit_input initialize) = Inr ()"
    by (simp add: phase1_process_segwit_input_eq demo_defs)
  have d: "bip143_in (snd (phase1_process_segwit_input 0 segwit_input initialize)) = 50"
  proof -
    have "phase1_process_segwit_input 0 segwit_input initialize
        = (Inr (), snd (phase1_process_segwit_input 0 segwit_input initialize))"
      using run1 by (simp add: prod_eq_iff)
    then show ?thesis
      using T[where i = 0 and txi = segwit_input and s = initialize
        and ?s1.0 = "snd (phase1_process_segwit_input 0 segwit_input initialize)", THEN c2] z am by auto
  qed
  have sw: "segwit_amounts [segwit_input, second_segwit_input] = 80"
    by (simp add: segwit_amounts_def input_is_segwit_def demo_defs)
  have loops: "fst (phase1_loops segwit_env initialize)
      = Inr ([segwit_input, second_segwit_input], [[9]])"
    by (simp add: phase1_run_defs monad_defs io_defs demo_defs initialize_def)
  have e: "bip143_in (snd (phase1_loops segwit_env initialize)) = 80"
  proof -
    have "phase1_loops segwit_env initialize
        = (Inr ([segwit_input, second_segwit_input], [[9]]),
           snd (phase1_loops segwit_env initialize))"
      using loops by (simp add: prod_eq_iff)
    then show ?thesis
      using T[where E = segwit_env and w_in = "[segwit_input, second_segwit_input]"
        and w_out = "[[9]]" and sl = "snd (phase1_loops segwit_env initialize)", THEN c3] sw by simp
  qed
  have p1: "phase1 greedy_env initialize = (Inr (), segwit_after_phase1)"
    by (simp add: phase2_run_defs phase1_run_defs monad_defs io_defs demo_defs initialize_def)
  have f: "bip143_in segwit_after_phase1
       = segwit_amounts (bip_prevouts (hash143 segwit_after_phase1))"
    using T[where E = greedy_env and ?r1.0 = "Inr ()" and sp = segwit_after_phase1, THEN c4] p1 by simp
  have g1: "fst (phase2 greedy_env segwit_after_phase1) = Inl (SigningError ProcessError)
      \<and> signed_segwit_amount (signed (snd (phase2 greedy_env segwit_after_phase1))) = 50"
    by (simp add: phase2_run_defs phase1_run_defs legacy_run_defs monad_defs io_defs demo_defs
        initialize_def signed_segwit_amount_def)
  have g: "bip143_in (snd (phase2 greedy_env segwit_after_phase1)) = 30"
    using T[where E = greedy_env and s = segwit_after_phase1
        and ?r2.0 = "fst (phase2 greedy_env segwit_after_phase1)"
        and ?s2.0 = "snd (phase2 greedy_env segwit_after_phase1)", THEN c5] z g1
    by (simp add: signed_segwit_amount_def prod_eq_iff)
  have h1: "fst (phase2 segwit_env segwit_after_phase1) = Inr ()
      \<and> signed_segwit_amount (signed (snd (phase2 segwit_env segwit_after_phase1))) = 80"
    by (simp add: phase2_run_defs phase1_run_defs legacy_run_defs monad_defs io_defs demo_defs
        initialize_def signed_segwit_amount_def)
  have h2: "bip143_in (snd (phase2 segwit_env segwit_after_phase1)) = 0"
    using T[where E = segwit_env and s = segwit_after_phase1
        and ?r2.0 = "fst (phase2 segwit_env segwit_after_phase1)"
        and ?s2.0 = "snd (phase2 segwit_env segwit_after_phase1)", THEN c5] z h1
    by (simp add: signed_segwit_amount_def prod_eq_iff)
  have sg: "signer greedy_env = phase2 greedy_env segwit_after_phase1"
    using p1 by (simp add: signer_def and_then_def)
  have pv: "segwit_amounts (bip_prevouts (hash143 (snd (phase1 greedy_env initialize)))) = 80"
    using p1 sw by (simp add: segwit_after_phase1_def)
  have k: "bip143_in (snd (signer greedy_env)) = 30"
    using T[where E = greedy_env, THEN c6] sg g1 pv by simp
  show ?thesis using chk a b run0 c d loops e p1 f g1 g h1 h2 sg pv k by simp
qed

end
